theory Spec2Isabelle
  imports Main
begin

section \<open>StretchTimer: a shallow embedding of \<^verbatim>\<open>stretch_timer.py\<close>\<close>

text \<open>
  The application is one class, \<^verbatim>\<open>StretchTimerApp\<close>, whose attributes are the settings
  (most of them Tk variables), the session state of the countdown and the widgets. The
  embedding keeps the attributes that carry state as a record, turns every method into a
  function from the record to the updated record, and writes every exception of the source
  as a value of \<open>py_error\<close>. What the program reads from outside (the wall clock, the random
  generator, the settings file) is an argument of the function that reads it.

  Strings are \<open>string\<close>; a \<open>char\<close> stands for a code point below 256.
\<close>

subsection \<open>Exceptions\<close>

datatype py_error = ValueError | TypeError | KeyError | JSONDecodeError | IOError
  | UnicodeDecodeError | TclError

subsection \<open>The content catalog\<close>

record exercise =
  name :: string
  duration :: string
  steps :: "string list"

definition BREATHING_EXERCISES :: "exercise list" where
  "BREATHING_EXERCISES = [
     \<lparr>name = ''Box Breathing'', duration = ''1 min'',
      steps =
        [''Inhale slowly for 4 seconds'',
         ''Hold your breath for 4 seconds'',
         ''Exhale slowly for 4 seconds'',
         ''Hold empty for 4 seconds, repeat 3x'']\<rparr>,
     \<lparr>name = ''4-7-8 Relaxing Breath'', duration = ''1 min'',
      steps =
        [''Inhale quietly through nose for 4 seconds'',
         ''Hold your breath for 7 seconds'',
         ''Exhale completely through mouth for 8 seconds'',
         ''Repeat 3 times'']\<rparr>,
     \<lparr>name = ''Deep Belly Breathing'', duration = ''1 min'',
      steps =
        [''Place hand on belly, relax shoulders'',
         ''Inhale deeply, feel belly rise'',
         ''Exhale slowly, feel belly fall'',
         ''Repeat 5-6 slow breaths'']\<rparr>,
     \<lparr>name = ''Energizing Breath'', duration = ''30 sec'',
      steps =
        [''Take a quick sniff-sniff-sniff through nose'',
         ''Exhale fully through mouth with a '' @ [CHR 0x27] @ ''hah'' @ [CHR 0x27],
         ''This is one cycle'',
         ''Repeat 5 cycles, feel more alert'']\<rparr>,
     \<lparr>name = ''Calming Exhale Focus'', duration = ''1 min'',
      steps =
        [''Inhale naturally for 4 seconds'',
         ''Exhale slowly for 6-8 seconds'',
         ''Focus only on the long exhale'',
         ''Repeat 5 times'']\<rparr>,
     \<lparr>name = ''Three-Part Breath'', duration = ''1 min'',
      steps =
        [''Inhale: fill belly first, then ribs, then chest'',
         ''One smooth breath filling bottom to top'',
         ''Exhale: empty chest, ribs, then belly'',
         ''Repeat 4-5 times slowly'']\<rparr>]"

definition EYE_EXERCISES :: "exercise list" where
  "EYE_EXERCISES = [
     \<lparr>name = ''Eye Focus - Window Gaze'', duration = ''20 sec'',
      steps =
        [''Look out a window at the farthest point'',
         ''Focus on that distant point for 20 seconds'',
         ''Let your eye muscles fully relax'']\<rparr>,
     \<lparr>name = ''Eye Focus - Near and Far'', duration = ''30 sec'',
      steps =
        [''Focus on your thumb 10 inches away for 5 sec'',
         ''Look at something 20+ feet away for 5 sec'',
         ''Alternate back and forth 5 times'']\<rparr>,
     \<lparr>name = ''20-20-20 Rule'', duration = ''20 sec'',
      steps =
        [''Find an object at least 20 feet away'',
         ''Focus on it for 20 seconds'',
         ''Blink naturally and breathe'']\<rparr>,
     \<lparr>name = ''Eye Relaxation - Palming'', duration = ''20 sec'',
      steps =
        [''Rub palms together to warm them'',
         ''Cup warm palms over closed eyes'',
         ''Relax in the darkness for 20 seconds'']\<rparr>,
     \<lparr>name = ''Eye Circles'', duration = ''30 sec'',
      steps =
        [''Keep head still, look up'',
         ''Slowly circle eyes clockwise'',
         ''Do 5 full circles'',
         ''Reverse: 5 circles counter-clockwise'']\<rparr>,
     \<lparr>name = ''Rapid Blinking'', duration = ''20 sec'',
      steps =
        [''Blink rapidly for 10 seconds'',
         ''Close eyes and relax for 5 seconds'',
         ''Blink rapidly again for 5 seconds'',
         ''Helps refresh tear film'']\<rparr>]"

definition STRETCHES :: "exercise list" where
  "STRETCHES = [
     \<lparr>name = ''Neck Half-Rolls'', duration = ''1 minute'',
      steps =
        [''Stand straight, relax your shoulders'',
         ''Drop chin to chest gently'',
         ''Roll head to right ear, then back to chest'',
         ''Roll head to left ear, then back to chest'',
         ''Do 5 half-circles each direction (avoid rolling back)'']\<rparr>,
     \<lparr>name = ''Neck Side Stretch'', duration = ''30 seconds'',
      steps =
        [''Stand tall with shoulders relaxed'',
         ''Tilt your right ear toward right shoulder'',
         ''Use right hand to gently press head further'',
         ''Hold for 15 seconds, feel the stretch'',
         ''Switch to the left side and repeat'']\<rparr>,
     \<lparr>name = ''Chin Tucks'', duration = ''30 seconds'',
      steps =
        [''Stand with your back against a wall'',
         ''Pull your chin straight back (make a double chin)'',
         ''Keep your eyes level, don'' @ [CHR 0x27] @ ''t tilt head'',
         ''Hold for 5 seconds'',
         ''Release and repeat 10 times'']\<rparr>,
     \<lparr>name = ''Neck Rotation'', duration = ''30 seconds'',
      steps =
        [''Stand tall, face forward'',
         ''Slowly turn head to look over right shoulder'',
         ''Hold for 5 seconds'',
         ''Return to center, then look left'',
         ''Repeat 5 times each side'']\<rparr>,
     \<lparr>name = ''Forward Neck Stretch'', duration = ''20 seconds'',
      steps =
        [''Stand with good posture'',
         ''Interlace fingers behind your head'',
         ''Gently pull chin toward chest'',
         ''Feel the stretch in the back of your neck'',
         ''Hold for 20 seconds, breathe slowly'']\<rparr>,
     \<lparr>name = ''Shoulder Rolls'', duration = ''1 minute'',
      steps =
        [''Stand relaxed with arms at your sides'',
         ''Raise shoulders up toward your ears'',
         ''Roll them backward in large circles'',
         ''Do 10 backward rolls'',
         ''Then 10 forward rolls'']\<rparr>,
     \<lparr>name = ''Shoulder Shrugs'', duration = ''30 seconds'',
      steps =
        [''Stand relaxed, arms at sides'',
         ''Raise shoulders up to your ears'',
         ''Hold for 5 seconds'',
         ''Release and let them drop'',
         ''Repeat 10 times'']\<rparr>,
     \<lparr>name = ''Cross-Body Arm Stretch'', duration = ''30 seconds'',
      steps =
        [''Extend right arm across your chest'',
         ''Use left hand to press it closer'',
         ''Hold for 15 seconds'',
         ''Switch arms'',
         ''Hold left arm for 15 seconds'']\<rparr>,
     \<lparr>name = ''Chest Opener'', duration = ''15 seconds'',
      steps =
        [''Stand tall with good posture'',
         ''Clasp hands behind your back'',
         ''Squeeze shoulder blades together'',
         ''Lift arms slightly while squeezing'',
         ''Hold 15 seconds, breathe deeply'']\<rparr>,
     \<lparr>name = ''Reach for the Ceiling'', duration = ''10 seconds'',
      steps =
        [''Stand tall with feet shoulder-width apart'',
         ''Raise both arms straight overhead'',
         ''Interlace your fingers, palms facing up'',
         ''Push upward and feel the stretch'',
         ''Hold for 10 seconds, breathe deeply'']\<rparr>,
     \<lparr>name = ''Standing Toe Touch'', duration = ''15 seconds'',
      steps =
        [''Stand with feet hip-width apart'',
         ''Bend forward slowly from hips'',
         ''Reach toward shins or toes'',
         ''Keep knees soft, stop if back hurts'',
         ''Hold 15 seconds, breathe'']\<rparr>,
     \<lparr>name = ''Torso Twist'', duration = ''30 seconds'',
      steps =
        [''Stand with feet shoulder-width apart'',
         ''Place hands on hips'',
         ''Twist upper body to the left'',
         ''Hold 3 seconds, return to center'',
         ''Twist right. Repeat 10 times each side'']\<rparr>,
     \<lparr>name = ''Side Bends'', duration = ''30 seconds'',
      steps =
        [''Stand with feet shoulder-width apart'',
         ''Raise right arm overhead'',
         ''Lean slowly to the left'',
         ''Hold 10 seconds, feel the stretch'',
         ''Switch sides and repeat'']\<rparr>,
     \<lparr>name = ''Wrist Circles'', duration = ''30 seconds'',
      steps =
        [''Extend both arms in front of you'',
         ''Make fists with both hands'',
         ''Rotate wrists in circles'',
         ''10 circles clockwise'',
         ''10 circles counter-clockwise'']\<rparr>,
     \<lparr>name = ''Arm Circles'', duration = ''30 seconds'',
      steps =
        [''Stand with feet shoulder-width apart'',
         ''Extend arms straight out to sides'',
         ''Make small circles, gradually larger'',
         ''10 circles forward'',
         ''10 circles backward'']\<rparr>,
     \<lparr>name = ''Wrist Flexor Stretch'', duration = ''30 seconds'',
      steps =
        [''Extend right arm, palm facing up'',
         ''Use left hand to pull fingers down'',
         ''Hold 15 seconds, feel forearm stretch'',
         ''Switch hands and repeat'',
         ''Great for typing strain relief'']\<rparr>,
     \<lparr>name = ''One Leg Balance'', duration = ''1 minute'',
      steps =
        [''Stand near a wall for support if needed'',
         ''Lift your right foot off the ground'',
         ''Balance on left leg for 30 seconds'',
         ''Switch legs'',
         ''Balance on right leg for 30 seconds'']\<rparr>,
     \<lparr>name = ''Calf Raises'', duration = ''30 seconds'',
      steps =
        [''Stand with feet hip-width apart'',
         ''Rise up onto your toes'',
         ''Hold for 2 seconds at the top'',
         ''Lower heels back down slowly'',
         ''Repeat 15 times'']\<rparr>,
     \<lparr>name = ''March in Place'', duration = ''1-2 minutes'',
      steps =
        [''Stand with feet together'',
         ''Lift right knee up high'',
         ''Lower it, lift left knee'',
         ''Swing arms naturally as you march'',
         ''Continue for 1-2 minutes'']\<rparr>,
     \<lparr>name = ''Standing Quad Stretch'', duration = ''30 seconds'',
      steps =
        [''Stand near wall for balance'',
         ''Grab right ankle behind you'',
         ''Pull heel toward buttock'',
         ''Keep knees together, hold 15 sec'',
         ''Switch legs and repeat'']\<rparr>,
     \<lparr>name = ''Standing Hip Flexor Stretch'', duration = ''30 seconds'',
      steps =
        [''Take a big step forward with right foot'',
         ''Lower into a shallow lunge'',
         ''Tuck tailbone, feel front of left hip stretch'',
         ''Hold 15 seconds'',
         ''Switch legs and repeat'']\<rparr>]"

text \<open>\<^verbatim>\<open>THEMES\<close>: the colour palette of each theme, a dict of dicts.\<close>

definition THEMES :: "(string \<times> (string \<times> string) list) list" where
  "THEMES = [
     (''light'',
      [(''bg'', ''#f0f4f8''), (''fg'', ''#1a202c''), (''accent'', ''#4299e1''),
       (''accent_hover'', ''#3182ce''), (''card_bg'', ''#ffffff''), (''success'', ''#48bb78''),
       (''warning'', ''#ed8936''), (''step_bg'', ''#f7fafc''), (''step_num'', ''#4299e1'')]),
     (''dark'',
      [(''bg'', ''#1a202c''), (''fg'', ''#e2e8f0''), (''accent'', ''#63b3ed''),
       (''accent_hover'', ''#4299e1''), (''card_bg'', ''#2d3748''), (''success'', ''#68d391''),
       (''warning'', ''#f6ad55''), (''step_bg'', ''#374151''), (''step_num'', ''#63b3ed'')])]"

subsection \<open>Times of day\<close>

text \<open>
  \<^verbatim>\<open>datetime.time\<close>: hour, minute, second, microsecond. Two naive times compare as the
  tuples of these four fields do (\<^verbatim>\<open>time._cmp\<close>), that is, lexicographically.
\<close>

record pytime =
  hour :: nat
  minute :: nat
  second :: nat
  microsecond :: nat

definition tuple_cmp :: "nat \<times> nat \<times> nat \<times> nat \<Rightarrow> nat \<times> nat \<times> nat \<times> nat \<Rightarrow> int" where
  "tuple_cmp x y =
     (case (x, y) of ((a1, a2, a3, a4), (b1, b2, b3, b4)) \<Rightarrow>
        if a1 \<noteq> b1 then (if a1 < b1 then - 1 else 1)
        else if a2 \<noteq> b2 then (if a2 < b2 then - 1 else 1)
        else if a3 \<noteq> b3 then (if a3 < b3 then - 1 else 1)
        else if a4 \<noteq> b4 then (if a4 < b4 then - 1 else 1)
        else 0)"

definition time_cmp :: "pytime \<Rightarrow> pytime \<Rightarrow> int" where
  "time_cmp s t =
     tuple_cmp (hour s, minute s, second s, microsecond s)
               (hour t, minute t, second t, microsecond t)"

definition time_le :: "pytime \<Rightarrow> pytime \<Rightarrow> bool" where
  "time_le s t = (time_cmp s t \<le> 0)"

definition time_ge :: "pytime \<Rightarrow> pytime \<Rightarrow> bool" where
  "time_ge s t = (time_cmp s t \<ge> 0)"

text \<open>A time of day as \<^verbatim>\<open>datetime\<close> constructs it, and its distance from midnight.\<close>

definition valid_time :: "pytime \<Rightarrow> bool" where
  "valid_time t = (hour t < 24 \<and> minute t < 60 \<and> second t < 60 \<and> microsecond t < 1000000)"

definition micros :: "pytime \<Rightarrow> nat" where
  "micros t = ((hour t * 60 + minute t) * 60 + second t) * 1000000 + microsecond t"

subsection \<open>\<^verbatim>\<open>datetime.strptime(s, "%H:%M")\<close>\<close>

text \<open>
  \<^verbatim>\<open>strptime\<close> compiles the format to the regular expression
  \<^verbatim>\<open>(?P<H>2[0-3]|[0-1]\d|\d):(?P<M>[0-5]\d|\d)\<close>, matches it at the start of the string and
  raises \<^verbatim>\<open>ValueError\<close> when there is no match or when the match is not the whole string
  (``unconverted data remains''). The matcher backtracks: it tries the alternatives of a
  group from left to right and keeps the first way through the whole expression. The
  functions below list the ways through each group in that order, each with the rest of
  the string; among code points below 256, \<^verbatim>\<open>\d\<close> matches the ten ASCII digits.
\<close>

definition digit_of :: "char \<Rightarrow> nat option" where
  "digit_of c =
     (let n = (of_char c :: nat) in if 48 \<le> n \<and> n \<le> 57 then Some (n - 48) else None)"

definition two_digits :: "string \<Rightarrow> (nat \<times> nat \<times> string) list" where
  "two_digits s =
     (case s of
        c1 # c2 # r \<Rightarrow>
          (case digit_of c1 of
             None \<Rightarrow> []
           | Some d1 \<Rightarrow> (case digit_of c2 of None \<Rightarrow> [] | Some d2 \<Rightarrow> [(d1, d2, r)]))
      | _ \<Rightarrow> [])"

definition one_digit :: "string \<Rightarrow> (nat \<times> string) list" where
  "one_digit s =
     (case s of
        c # r \<Rightarrow> (case digit_of c of None \<Rightarrow> [] | Some d \<Rightarrow> [(d, r)])
      | [] \<Rightarrow> [])"

definition match_H :: "string \<Rightarrow> (nat \<times> string) list" where
  "match_H s =
     concat (map (\<lambda>(d1, d2, r). if d1 = 2 \<and> d2 \<le> 3 then [(10 * d1 + d2, r)] else [])
                 (two_digits s))
     @ concat (map (\<lambda>(d1, d2, r). if d1 \<le> 1 then [(10 * d1 + d2, r)] else [])
                   (two_digits s))
     @ one_digit s"

definition match_M :: "string \<Rightarrow> (nat \<times> string) list" where
  "match_M s =
     concat (map (\<lambda>(d1, d2, r). if d1 \<le> 5 then [(10 * d1 + d2, r)] else [])
                 (two_digits s))
     @ one_digit s"

definition match_colon :: "string \<Rightarrow> string list" where
  "match_colon s = (case s of c # r \<Rightarrow> (if c = CHR '':'' then [r] else []) | [] \<Rightarrow> [])"

definition match_HM :: "string \<Rightarrow> (nat \<times> nat \<times> string) list" where
  "match_HM s =
     concat (map (\<lambda>(h, r).
       concat (map (\<lambda>r'. map (\<lambda>(m, r''). (h, m, r'')) (match_M r')) (match_colon r)))
       (match_H s))"

definition strptime_HM :: "string \<Rightarrow> py_error + pytime" where
  "strptime_HM s =
     (case match_HM s of
        [] \<Rightarrow> Inl ValueError
      | (h, m, rest) # _ \<Rightarrow>
          if rest \<noteq> [] then Inl ValueError
          else Inr \<lparr>hour = h, minute = m, second = 0, microsecond = 0\<rparr>)"

subsection \<open>The application object\<close>

text \<open>
  A reminder popup, as \<^verbatim>\<open>show_stretch_popup\<close> builds it: what it displays, the timer
  that \<^verbatim>\<open>popup.after\<close> registered for it (if any), the time since it was shown, and
  whether the window is still there.
\<close>

datatype popup_state = Shown | Dismissed | TimedOut

record popup =
  p_title :: string
  p_stretch :: exercise
  p_secondary :: exercise
  p_secondary_type :: string
  p_count :: int
  p_auto_close_ms :: "int option"
  p_age_ms :: int
  p_state :: popup_state

text \<open>
  The timer thread never touches a widget: it hands a callback to the Tk main loop with
  \<^verbatim>\<open>root.after(0, ...)\<close>. Of the three callbacks it schedules, the two that only redraw
  a label (the countdown text, the session duration) are left out.
\<close>

datatype callback = CbTriggerStretch

text \<open>
  The attributes of \<^verbatim>\<open>StretchTimerApp\<close>. A Tk variable is modelled by the value that its
  \<^verbatim>\<open>get()\<close> returns. \<^verbatim>\<open>start_time\<close>, \<^verbatim>\<open>timer_thread\<close> and the widgets are left out:
  they feed the display only.
\<close>

record app =
  interval_minutes :: int
  running :: bool
  paused :: bool
  stretch_count :: int
  remaining_seconds :: int
  theme :: string
  colors :: "(string \<times> string) list"
  current_stretch :: "exercise option"
  current_secondary_exercise :: "exercise option"
  last_secondary_type :: string
  quiet_enabled :: bool
  quiet_start :: string
  quiet_end :: string
  popup_timeout_seconds :: int
  popup_persistent :: bool
  sound_enabled :: bool
  custom_message :: string
  after_queue :: "callback list"
  popups :: "popup list"

text \<open>The assignments of \<^verbatim>\<open>__init__\<close>, before the settings file is read.\<close>

definition fresh_app :: app where
  "fresh_app =
     \<lparr>interval_minutes = 45, running = False, paused = False, stretch_count = 0,
      remaining_seconds = 0, theme = ''light'',
      colors = (case map_of THEMES ''light'' of Some c \<Rightarrow> c | None \<Rightarrow> []),
      current_stretch = None, current_secondary_exercise = None,
      last_secondary_type = ''breathing'',
      quiet_enabled = False, quiet_start = ''18:00'', quiet_end = ''08:00'',
      popup_timeout_seconds = 180, popup_persistent = False, sound_enabled = True,
      custom_message = ''Time to Stretch!'', after_queue = [], popups = []\<rparr>"

subsection \<open>Quiet hours\<close>

text \<open>
  \<^verbatim>\<open>is_quiet_hours\<close>. The clock reading \<^verbatim>\<open>datetime.now().time()\<close> is the argument \<open>now\<close>.
  \<open>is_quiet_hours_try\<close> is the body of the \<^verbatim>\<open>try\<close>; \<open>is_quiet_hours\<close> adds the
  \<^verbatim>\<open>except ValueError: return False\<close> around it.
\<close>

definition is_quiet_hours_try :: "app \<Rightarrow> pytime \<Rightarrow> py_error + bool" where
  "is_quiet_hours_try a now =
     (case strptime_HM (quiet_start a) of
        Inl e \<Rightarrow> Inl e
      | Inr start \<Rightarrow>
          (case strptime_HM (quiet_end a) of
             Inl e \<Rightarrow> Inl e
           | Inr end' \<Rightarrow>
               if time_le start end' then Inr (time_le start now \<and> time_le now end')
               else Inr (time_ge now start \<or> time_le now end')))"

definition is_quiet_hours :: "app \<Rightarrow> pytime \<Rightarrow> py_error + bool" where
  "is_quiet_hours a now =
     (if \<not> quiet_enabled a then Inr False
      else (case is_quiet_hours_try a now of
              Inl ValueError \<Rightarrow> Inr False
            | Inl e \<Rightarrow> Inl e
            | Inr b \<Rightarrow> Inr b))"

subsection \<open>The reminder dispatcher\<close>

text \<open>
  \<^verbatim>\<open>random.choice(seq)\<close> returns \<^verbatim>\<open>seq[i]\<close> for a random index \<open>i\<close> below the
  length; the random draw is the argument \<open>r\<close>. The three catalogs it is used on are not
  empty, so the index is always in range.
\<close>

definition random_choice :: "'a list \<Rightarrow> nat \<Rightarrow> 'a" where
  "random_choice xs r = xs ! (r mod length xs)"

definition show_stretch_popup :: "exercise \<Rightarrow> exercise \<Rightarrow> string \<Rightarrow> app \<Rightarrow> app" where
  "show_stretch_popup stretch secondary_exercise secondary_type a =
     a\<lparr>popups := popups a @
        [\<lparr>p_title = custom_message a, p_stretch = stretch,
          p_secondary = secondary_exercise, p_secondary_type = secondary_type,
          p_count = stretch_count a,
          p_auto_close_ms =
            (if \<not> popup_persistent a then Some (popup_timeout_seconds a * 1000) else None),
          p_age_ms = 0, p_state = Shown\<rparr>]\<rparr>"

text \<open>
  \<^verbatim>\<open>trigger_stretch\<close>. The sound and the desktop notification are best effort and change
  no attribute; they are left out.
\<close>

definition trigger_stretch :: "nat \<Rightarrow> nat \<Rightarrow> app \<Rightarrow> app" where
  "trigger_stretch r1 r2 a =
     (let a1 = a\<lparr>stretch_count := stretch_count a + 1\<rparr>;
          stretch = random_choice STRETCHES r1;
          (secondary_exercise, secondary_type) =
            (if last_secondary_type a1 = ''breathing''
             then (random_choice EYE_EXERCISES r2, ''eye'')
             else (random_choice BREATHING_EXERCISES r2, ''breathing''));
          a2 = a1\<lparr>last_secondary_type := secondary_type,
                  current_stretch := Some stretch,
                  current_secondary_exercise := Some secondary_exercise\<rparr>;
          a3 = show_stretch_popup stretch secondary_exercise secondary_type a2
      in a3\<lparr>remaining_seconds := interval_minutes a3 * 60\<rparr>)"

subsection \<open>The countdown engine\<close>

definition start_timer :: "app \<Rightarrow> app" where
  "start_timer a =
     a\<lparr>running := True, paused := False, stretch_count := 0,
       remaining_seconds := interval_minutes a * 60\<rparr>"

definition stop_timer :: "app \<Rightarrow> app" where
  "stop_timer a = a\<lparr>running := False, paused := False\<rparr>"

definition toggle_timer :: "app \<Rightarrow> app" where
  "toggle_timer a = (if running a then stop_timer a else start_timer a)"

definition toggle_pause :: "app \<Rightarrow> app" where
  "toggle_pause a = a\<lparr>paused := \<not> paused a\<rparr>"

text \<open>
  One pass through the body of the \<^verbatim>\<open>while self.running\<close> loop of \<^verbatim>\<open>timer_loop\<close>, the
  clock reading \<open>now\<close> being the one \<^verbatim>\<open>is_quiet_hours\<close> takes. A trigger is not run by
  the thread: it is appended to the callbacks waiting for the main loop.
\<close>

definition timer_loop_body :: "pytime \<Rightarrow> app \<Rightarrow> py_error + app" where
  "timer_loop_body now a =
     (if \<not> paused a then
        (if remaining_seconds a \<le> 0 then
           (case is_quiet_hours a now of
              Inl e \<Rightarrow> Inl e
            | Inr quiet \<Rightarrow>
                Inr ((if \<not> quiet then a\<lparr>after_queue := after_queue a @ [CbTriggerStretch]\<rparr>
                      else a)
                     \<lparr>remaining_seconds := interval_minutes a * 60\<rparr>))
         else Inr (a\<lparr>remaining_seconds := remaining_seconds a - 1\<rparr>))
      else Inr a)"

text \<open>
  What can happen to the application, one event at a time: a pass of the timer thread
  (only while \<^verbatim>\<open>running\<close> holds, the loop's condition), the main loop running the next
  waiting callback, and the user's actions: the Start/Stop button, the Pause button
  (enabled only while the timer runs), the Now button (bound to \<^verbatim>\<open>trigger_stretch\<close>),
  a new value in the interval spinbox, and the quiet-hours widgets.
\<close>

datatype event =
    Tick pytime
  | RunCallback nat nat
  | ClickStartStop
  | ClickPause
  | ClickNow nat nat
  | SetInterval int
  | SetQuietHours bool string string

fun step :: "event \<Rightarrow> app \<Rightarrow> py_error + app" where
  "step (Tick now) a = (if running a then timer_loop_body now a else Inr a)"
| "step (RunCallback r1 r2) a =
     (case after_queue a of
        [] \<Rightarrow> Inr a
      | CbTriggerStretch # q \<Rightarrow> Inr (trigger_stretch r1 r2 (a\<lparr>after_queue := q\<rparr>)))"
| "step ClickStartStop a = Inr (toggle_timer a)"
| "step ClickPause a = Inr (if running a then toggle_pause a else a)"
| "step (ClickNow r1 r2) a = Inr (trigger_stretch r1 r2 a)"
| "step (SetInterval n) a = Inr (a\<lparr>interval_minutes := n\<rparr>)"
| "step (SetQuietHours en s e) a =
     Inr (a\<lparr>quiet_enabled := en, quiet_start := s, quiet_end := e\<rparr>)"

fun run :: "event list \<Rightarrow> app \<Rightarrow> py_error + app" where
  "run [] a = Inr a"
| "run (ev # evs) a = (case step ev a of Inl e \<Rightarrow> Inl e | Inr a' \<Rightarrow> run evs a')"

text \<open>Consecutive invocations of \<^verbatim>\<open>trigger_stretch\<close>, one per pair of random draws.\<close>

fun trigger_many :: "(nat \<times> nat) list \<Rightarrow> app \<Rightarrow> app" where
  "trigger_many [] a = a"
| "trigger_many ((r1, r2) # rs) a = trigger_many rs (trigger_stretch r1 r2 a)"

text \<open>
  The secondary types of the reminders shown since the state \<open>a\<close>: the value of the local
  \<^verbatim>\<open>secondary_type\<close> of each invocation, which the popup receives.
\<close>

definition shown_types :: "app \<Rightarrow> app \<Rightarrow> string list" where
  "shown_types a a' = map p_secondary_type (drop (length (popups a)) (popups a'))"

subsection \<open>The popup\<close>

text \<open>
  A popup closes in two ways: the user presses Done (or closes the window), which calls
  \<^verbatim>\<open>popup.destroy\<close>; or the timer registered by \<^verbatim>\<open>popup.after(timeout_ms, ...)\<close> runs
  once \<^verbatim>\<open>timeout_ms\<close> have passed, and destroys the window if it still exists.
\<close>

datatype popup_event = ClickDone | Elapse nat

fun popup_step :: "popup_event \<Rightarrow> popup \<Rightarrow> popup" where
  "popup_step ClickDone p = (if p_state p = Shown then p\<lparr>p_state := Dismissed\<rparr> else p)"
| "popup_step (Elapse ms) p =
     (let p' = p\<lparr>p_age_ms := p_age_ms p + int ms\<rparr>
      in case p_auto_close_ms p' of
           None \<Rightarrow> p'
         | Some t \<Rightarrow> if p_state p' = Shown \<and> t \<le> p_age_ms p' then p'\<lparr>p_state := TimedOut\<rparr>
                     else p')"

fun popup_run :: "popup_event list \<Rightarrow> popup \<Rightarrow> popup" where
  "popup_run [] p = p"
| "popup_run (ev # evs) p = popup_run evs (popup_step ev p)"

text \<open>The time that passes in a sequence of popup events.\<close>

fun elapsed_ms :: "popup_event list \<Rightarrow> int" where
  "elapsed_ms [] = 0"
| "elapsed_ms (Elapse ms # evs) = int ms + elapsed_ms evs"
| "elapsed_ms (ClickDone # evs) = elapsed_ms evs"

subsection \<open>The settings store\<close>

text \<open>
  What \<^verbatim>\<open>json.load\<close> returns: a JSON value (numbers restricted to integers). An object is
  a dict; its bindings are listed, and a lookup takes the first binding of a key.
\<close>

datatype json = JNull | JBool bool | JInt int | JStr string | JArr "json list"
  | JObj "(string \<times> json) list"

text \<open>
  The settings file, by what reading it does: there is no file; \<^verbatim>\<open>open\<close> raises
  \<^verbatim>\<open>IOError\<close>; the bytes are not text in the platform's encoding, so that reading raises
  \<^verbatim>\<open>UnicodeDecodeError\<close>; the text is not JSON, so that \<^verbatim>\<open>json.load\<close> raises
  \<^verbatim>\<open>JSONDecodeError\<close>; or \<^verbatim>\<open>json.load\<close> returns a value. The text that \<^verbatim>\<open>json.dump\<close>
  writes for a dict of integers, booleans and strings is read back by \<^verbatim>\<open>json.load\<close>
  as the same dict, so a written file is modelled by the value written.
\<close>

datatype settings_file = NoFile | Unreadable | Undecodable | NotJson | Json json

fun is_prefix :: "string \<Rightarrow> string \<Rightarrow> bool" where
  "is_prefix [] s = True"
| "is_prefix (c # k) [] = False"
| "is_prefix (c # k) (d # s) = (c = d \<and> is_prefix k s)"

fun is_substring :: "string \<Rightarrow> string \<Rightarrow> bool" where
  "is_substring k [] = is_prefix k []"
| "is_substring k (d # s) = (is_prefix k (d # s) \<or> is_substring k s)"

text \<open>
  \<^verbatim>\<open>key in settings\<close> and \<^verbatim>\<open>settings[key]\<close> for a string key, on whatever value the file
  held: a dict, a string (substring test; a string index raises), a list (membership; a
  string index raises), or a value that supports neither.
\<close>

definition py_contains :: "json \<Rightarrow> string \<Rightarrow> py_error + bool" where
  "py_contains settings k =
     (case settings of
        JObj kvs \<Rightarrow> Inr (k \<in> set (map fst kvs))
      | JStr s \<Rightarrow> Inr (is_substring k s)
      | JArr xs \<Rightarrow> Inr (JStr k \<in> set xs)
      | _ \<Rightarrow> Inl TypeError)"

definition py_getitem :: "json \<Rightarrow> string \<Rightarrow> py_error + json" where
  "py_getitem settings k =
     (case settings of
        JObj kvs \<Rightarrow> (case map_of kvs k of Some v \<Rightarrow> Inr v | None \<Rightarrow> Inl KeyError)
      | _ \<Rightarrow> Inl TypeError)"

text \<open>
  Storing a loaded value in a Tk variable. The record holds what \<^verbatim>\<open>get()\<close> returns, an
  integer, a boolean or a string according to the variable; a JSON value of the
  variable's own type is stored as it is. For a value of another type Tk keeps a
  representation whose later \<^verbatim>\<open>get()\<close> depends on Tcl's conversions; the model does not
  follow it and reports \<open>TclError\<close>.
\<close>

definition IntVar_set :: "json \<Rightarrow> py_error + int" where
  "IntVar_set v = (case v of JInt n \<Rightarrow> Inr n | _ \<Rightarrow> Inl TclError)"

definition BooleanVar_set :: "json \<Rightarrow> py_error + bool" where
  "BooleanVar_set v = (case v of JBool b \<Rightarrow> Inr b | _ \<Rightarrow> Inl TclError)"

definition StringVar_set :: "json \<Rightarrow> py_error + string" where
  "StringVar_set v = (case v of JStr s \<Rightarrow> Inr s | _ \<Rightarrow> Inl TclError)"

text \<open>
  \<^verbatim>\<open>self.theme = settings["theme"]; self.colors = THEMES[self.theme]\<close>: a string that is
  no theme, and any other hashable value, raises \<^verbatim>\<open>KeyError\<close>; a list or a dict is
  unhashable and raises \<^verbatim>\<open>TypeError\<close>.
\<close>

definition set_theme :: "json \<Rightarrow> app \<Rightarrow> py_error + app" where
  "set_theme v a =
     (case v of
        JStr t \<Rightarrow> (case map_of THEMES t of
                     Some c \<Rightarrow> Inr (a\<lparr>theme := t, colors := c\<rparr>)
                   | None \<Rightarrow> Inl KeyError)
      | JArr _ \<Rightarrow> Inl TypeError
      | JObj _ \<Rightarrow> Inl TypeError
      | _ \<Rightarrow> Inl KeyError)"

definition map_result :: "('a \<Rightarrow> 'b) \<Rightarrow> py_error + 'a \<Rightarrow> py_error + 'b" where
  "map_result f r = (case r of Inl e \<Rightarrow> Inl e | Inr x \<Rightarrow> Inr (f x))"

text \<open>\<^verbatim>\<open>if key in settings: <store settings[key]>\<close>\<close>

definition load_field :: "string \<Rightarrow> (json \<Rightarrow> app \<Rightarrow> py_error + app) \<Rightarrow> json \<Rightarrow> app \<Rightarrow> py_error + app"
  where
  "load_field k store settings a =
     (case py_contains settings k of
        Inl e \<Rightarrow> Inl e
      | Inr present \<Rightarrow>
          if present then
            (case py_getitem settings k of Inl e \<Rightarrow> Inl e | Inr v \<Rightarrow> store v a)
          else Inr a)"

fun in_sequence :: "(app \<Rightarrow> py_error + app) list \<Rightarrow> app \<Rightarrow> py_error + app" where
  "in_sequence [] a = Inr a"
| "in_sequence (f # fs) a = (case f a of Inl e \<Rightarrow> Inl e | Inr a' \<Rightarrow> in_sequence fs a')"

definition apply_settings :: "json \<Rightarrow> app \<Rightarrow> py_error + app" where
  "apply_settings settings =
     in_sequence
       [load_field ''interval_minutes''
          (\<lambda>v a. map_result (\<lambda>n. a\<lparr>interval_minutes := n\<rparr>) (IntVar_set v)) settings,
        load_field ''quiet_enabled''
          (\<lambda>v a. map_result (\<lambda>b. a\<lparr>quiet_enabled := b\<rparr>) (BooleanVar_set v)) settings,
        load_field ''quiet_start''
          (\<lambda>v a. map_result (\<lambda>s. a\<lparr>quiet_start := s\<rparr>) (StringVar_set v)) settings,
        load_field ''quiet_end''
          (\<lambda>v a. map_result (\<lambda>s. a\<lparr>quiet_end := s\<rparr>) (StringVar_set v)) settings,
        load_field ''theme'' set_theme settings,
        load_field ''custom_message''
          (\<lambda>v a. map_result (\<lambda>s. a\<lparr>custom_message := s\<rparr>) (StringVar_set v)) settings,
        load_field ''popup_timeout_seconds''
          (\<lambda>v a. map_result (\<lambda>n. a\<lparr>popup_timeout_seconds := n\<rparr>) (IntVar_set v)) settings,
        load_field ''popup_persistent''
          (\<lambda>v a. map_result (\<lambda>b. a\<lparr>popup_persistent := b\<rparr>) (BooleanVar_set v)) settings,
        load_field ''sound_enabled''
          (\<lambda>v a. map_result (\<lambda>b. a\<lparr>sound_enabled := b\<rparr>) (BooleanVar_set v)) settings]"

text \<open>
  \<^verbatim>\<open>load_settings\<close>: \<open>load_settings_try\<close> is the body of the \<^verbatim>\<open>try\<close>, and
  \<open>load_settings\<close> adds \<^verbatim>\<open>except (json.JSONDecodeError, IOError): pass\<close>. Both
  exceptions can only come from opening and parsing, before any attribute is assigned, so
  the state after the \<^verbatim>\<open>pass\<close> is the state before the call.
\<close>

definition load_settings_try :: "settings_file \<Rightarrow> app \<Rightarrow> py_error + app" where
  "load_settings_try f a =
     (case f of
        NoFile \<Rightarrow> Inr a
      | Unreadable \<Rightarrow> Inl IOError
      | Undecodable \<Rightarrow> Inl UnicodeDecodeError
      | NotJson \<Rightarrow> Inl JSONDecodeError
      | Json settings \<Rightarrow> apply_settings settings a)"

definition load_settings :: "settings_file \<Rightarrow> app \<Rightarrow> py_error + app" where
  "load_settings f a =
     (case load_settings_try f a of
        Inl JSONDecodeError \<Rightarrow> Inr a
      | Inl IOError \<Rightarrow> Inr a
      | r \<Rightarrow> r)"

text \<open>
  \<^verbatim>\<open>save_settings\<close>: the dict of the nine settings, written to the file. When the file
  cannot be opened for writing, \<^verbatim>\<open>IOError\<close> is swallowed and the file stays as it was.
\<close>

definition settings_dict :: "app \<Rightarrow> json" where
  "settings_dict a =
     JObj [(''interval_minutes'', JInt (interval_minutes a)),
           (''quiet_enabled'', JBool (quiet_enabled a)),
           (''quiet_start'', JStr (quiet_start a)),
           (''quiet_end'', JStr (quiet_end a)),
           (''theme'', JStr (theme a)),
           (''custom_message'', JStr (custom_message a)),
           (''popup_timeout_seconds'', JInt (popup_timeout_seconds a)),
           (''popup_persistent'', JBool (popup_persistent a)),
           (''sound_enabled'', JBool (sound_enabled a))]"

definition save_settings :: "bool \<Rightarrow> app \<Rightarrow> settings_file \<Rightarrow> settings_file" where
  "save_settings writable a f = (if writable then Json (settings_dict a) else f)"

text \<open>The start of the application: \<^verbatim>\<open>__init__\<close> up to and including \<^verbatim>\<open>load_settings()\<close>.\<close>

definition app_init :: "settings_file \<Rightarrow> py_error + app" where
  "app_init f = load_settings f fresh_app"

text \<open>The nine persisted settings of an application state.\<close>

definition settings_of ::
  "app \<Rightarrow> int \<times> bool \<times> string \<times> string \<times> string \<times> string \<times> int \<times> bool \<times> bool" where
  "settings_of a =
     (interval_minutes a, quiet_enabled a, quiet_start a, quiet_end a, theme a,
      custom_message a, popup_timeout_seconds a, popup_persistent a, sound_enabled a)"

subsection \<open>Auxiliary functions\<close>

text \<open>
  The other secondary type, as the \<^verbatim>\<open>if\<close> of \<^verbatim>\<open>trigger_stretch\<close> picks it; the sequence
  of types that \<open>n\<close> flips produce; and the session state of an application, the
  attributes that are not settings.
\<close>

definition flip_type :: "string \<Rightarrow> string" where
  "flip_type t = (if t = ''breathing'' then ''eye'' else ''breathing'')"

fun alternation :: "string \<Rightarrow> nat \<Rightarrow> string list" where
  "alternation t 0 = []"
| "alternation t (Suc n) = flip_type t # alternation (flip_type t) n"

definition session_of ::
  "app \<Rightarrow> bool \<times> bool \<times> int \<times> int \<times> exercise option \<times> exercise option \<times> string
     \<times> callback list \<times> popup list" where
  "session_of a =
     (running a, paused a, stretch_count a, remaining_seconds a, current_stretch a,
      current_secondary_exercise a, last_secondary_type a, after_queue a, popups a)"

text \<open>
  The interval values that a sequence of events sets; the bounds kept by the countdown,
  for a largest interval \<open>M\<close>; and a clock reading for the examples.
\<close>

fun interval_changes :: "event list \<Rightarrow> int list" where
  "interval_changes [] = []"
| "interval_changes (SetInterval n # evs) = n # interval_changes evs"
| "interval_changes (ev # evs) = interval_changes evs"

definition within :: "int \<Rightarrow> app \<Rightarrow> bool" where
  "within M a =
     (0 \<le> remaining_seconds a \<and> remaining_seconds a \<le> M * 60 \<and>
      0 \<le> interval_minutes a \<and> interval_minutes a \<le> M)"

definition noon :: pytime where
  "noon = \<lparr>hour = 12, minute = 0, second = 0, microsecond = 0\<rparr>"

text \<open>
  For the statements about a settings object: the value that a key gives to an integer,
  boolean or string setting (the default \<open>d\<close> where the key is missing), and objects
  whose present keys hold values of the types that \<^verbatim>\<open>save_settings\<close> writes.
\<close>

definition int_field :: "(string \<times> json) list \<Rightarrow> string \<Rightarrow> int \<Rightarrow> int" where
  "int_field kvs k d = (case map_of kvs k of Some (JInt n) \<Rightarrow> n | _ \<Rightarrow> d)"

definition bool_field :: "(string \<times> json) list \<Rightarrow> string \<Rightarrow> bool \<Rightarrow> bool" where
  "bool_field kvs k d = (case map_of kvs k of Some (JBool b) \<Rightarrow> b | _ \<Rightarrow> d)"

definition str_field :: "(string \<times> json) list \<Rightarrow> string \<Rightarrow> string \<Rightarrow> string" where
  "str_field kvs k d = (case map_of kvs k of Some (JStr s) \<Rightarrow> s | _ \<Rightarrow> d)"

definition typed_as :: "(json \<Rightarrow> bool) \<Rightarrow> (string \<times> json) list \<Rightarrow> string \<Rightarrow> bool" where
  "typed_as ok kvs k = (case map_of kvs k of None \<Rightarrow> True | Some v \<Rightarrow> ok v)"

definition is_JInt :: "json \<Rightarrow> bool" where
  "is_JInt v = (case v of JInt _ \<Rightarrow> True | _ \<Rightarrow> False)"

definition is_JBool :: "json \<Rightarrow> bool" where
  "is_JBool v = (case v of JBool _ \<Rightarrow> True | _ \<Rightarrow> False)"

definition is_JStr :: "json \<Rightarrow> bool" where
  "is_JStr v = (case v of JStr _ \<Rightarrow> True | _ \<Rightarrow> False)"

definition is_theme :: "json \<Rightarrow> bool" where
  "is_theme v = (v = JStr ''light'' \<or> v = JStr ''dark'')"

definition well_typed_settings :: "(string \<times> json) list \<Rightarrow> bool" where
  "well_typed_settings kvs =
     (typed_as is_JInt kvs ''interval_minutes'' \<and> typed_as is_JBool kvs ''quiet_enabled'' \<and>
      typed_as is_JStr kvs ''quiet_start'' \<and> typed_as is_JStr kvs ''quiet_end'' \<and>
      typed_as is_theme kvs ''theme'' \<and> typed_as is_JStr kvs ''custom_message'' \<and>
      typed_as is_JInt kvs ''popup_timeout_seconds'' \<and>
      typed_as is_JBool kvs ''popup_persistent'' \<and> typed_as is_JBool kvs ''sound_enabled'')"

section \<open>Properties\<close>

subsection \<open>Parsing and comparing times\<close>

lemmas parse_defs = strptime_HM_def match_HM_def match_H_def match_M_def match_colon_def
  two_digits_def one_digit_def digit_of_def

lemma digit_of_le: "digit_of c = Some d \<Longrightarrow> d \<le> 9"
  by (auto simp: digit_of_def Let_def split: if_splits)

lemma two_digits_le: "(d1, d2, r) \<in> set (two_digits s) \<Longrightarrow> d1 \<le> 9 \<and> d2 \<le> 9"
  by (auto simp: two_digits_def split: list.splits option.splits
      dest: digit_of_le digit_of_le [OF sym])

lemma one_digit_le: "(d, r) \<in> set (one_digit s) \<Longrightarrow> d \<le> 9"
  by (auto simp: one_digit_def split: list.splits option.splits
      dest: digit_of_le digit_of_le [OF sym])

lemma match_H_range: "(h, r) \<in> set (match_H s) \<Longrightarrow> h < 24"
  by (auto simp: match_H_def split: if_splits dest!: two_digits_le one_digit_le)

lemma match_M_range: "(m, r) \<in> set (match_M s) \<Longrightarrow> m < 60"
  by (auto simp: match_M_def split: if_splits dest!: two_digits_le one_digit_le)

lemma match_HM_range: "(h, m, r) \<in> set (match_HM s) \<Longrightarrow> h < 24 \<and> m < 60"
  by (auto simp: match_HM_def dest: match_H_range match_M_range)

lemma strptime_HM_Inr:
  assumes "strptime_HM s = Inr t"
  shows "hour t < 24 \<and> minute t < 60 \<and> second t = 0 \<and> microsecond t = 0"
proof -
  from assms obtain h m ms where ms: "match_HM s = (h, m, []) # ms"
    and t: "t = \<lparr>hour = h, minute = m, second = 0, microsecond = 0\<rparr>"
    by (auto simp: strptime_HM_def split: list.splits if_splits)
  from ms have "(h, m, []) \<in> set (match_HM s)" by simp
  then have "h < 24 \<and> m < 60" by (rule match_HM_range)
  with t show ?thesis by simp
qed

lemma strptime_HM_valid: "strptime_HM s = Inr t \<Longrightarrow> valid_time t"
  by (drule strptime_HM_Inr) (simp add: valid_time_def)

lemma strptime_HM_Inl: "strptime_HM s = Inl e \<Longrightarrow> e = ValueError"
  by (auto simp: strptime_HM_def split: list.splits if_splits)

lemma time_le_micros:
  "valid_time s \<Longrightarrow> valid_time t \<Longrightarrow> time_le s t \<longleftrightarrow> micros s \<le> micros t"
  unfolding valid_time_def time_le_def time_cmp_def tuple_cmp_def micros_def
  by (auto split: if_splits)

lemma time_ge_micros:
  "valid_time s \<Longrightarrow> valid_time t \<Longrightarrow> time_ge s t \<longleftrightarrow> micros t \<le> micros s"
  unfolding valid_time_def time_ge_def time_cmp_def tuple_cmp_def micros_def
  by (auto split: if_splits)

lemma is_quiet_hours_try_Inl: "is_quiet_hours_try a now = Inl e \<Longrightarrow> e = ValueError"
  by (auto simp: is_quiet_hours_try_def split: sum.splits if_splits dest: strptime_HM_Inl)

lemma is_quiet_hours_total: "\<exists>b. is_quiet_hours a now = Inr b"
proof (cases "is_quiet_hours_try a now")
  case (Inl e)
  then have "e = ValueError" by (rule is_quiet_hours_try_Inl)
  with Inl show ?thesis by (auto simp: is_quiet_hours_def)
next
  case (Inr b)
  then show ?thesis by (auto simp: is_quiet_hours_def)
qed

subsection \<open>Quiet hours\<close>

text \<open>
  C1. With quiet hours enabled and start and end strings that \<^verbatim>\<open>strptime\<close> accepts,
  \<^verbatim>\<open>is_quiet_hours\<close> suppresses exactly when the current time of day lies in the window:
  when start \<open>\<le>\<close> end, when start \<open>\<le>\<close> now \<open>\<le>\<close> end, both ends included; when
  start \<open>>\<close> end (the window wraps midnight), when now \<open>\<ge>\<close> start or now \<open>\<le>\<close> end.
  Times are compared by their distance from midnight, which is how the tuples that
  Python compares are ordered.
\<close>

theorem is_quiet_hours_window:
  assumes en: "quiet_enabled a"
    and st: "strptime_HM (quiet_start a) = Inr start"
    and fi: "strptime_HM (quiet_end a) = Inr end'"
    and now: "valid_time now"
  shows "is_quiet_hours a now =
           Inr (if micros start \<le> micros end'
                then micros start \<le> micros now \<and> micros now \<le> micros end'
                else micros now \<ge> micros start \<or> micros now \<le> micros end')"
proof -
  have vs: "valid_time start" using st by (rule strptime_HM_valid)
  have ve: "valid_time end'" using fi by (rule strptime_HM_valid)
  have "is_quiet_hours_try a now =
          Inr (if time_le start end' then time_le start now \<and> time_le now end'
               else time_ge now start \<or> time_le now end')"
    by (simp add: is_quiet_hours_try_def st fi)
  then show ?thesis
    using en by (simp add: is_quiet_hours_def time_le_micros time_ge_micros vs ve now)
qed

text \<open>The window 22:00 to 06:00 suppresses at 23:30 and not at 12:00.\<close>

theorem is_quiet_hours_window_witness:
  "is_quiet_hours (fresh_app\<lparr>quiet_enabled := True, quiet_start := ''22:00'', quiet_end := ''06:00''\<rparr>)
     \<lparr>hour = 23, minute = 30, second = 0, microsecond = 0\<rparr> = Inr True
   \<and> is_quiet_hours (fresh_app\<lparr>quiet_enabled := True, quiet_start := ''22:00'', quiet_end := ''06:00''\<rparr>)
     \<lparr>hour = 12, minute = 0, second = 0, microsecond = 0\<rparr> = Inr False"
proof -
  let ?a = "fresh_app\<lparr>quiet_enabled := True, quiet_start := ''22:00'', quiet_end := ''06:00''\<rparr>"
  let ?s = "\<lparr>hour = 22, minute = 0, second = 0, microsecond = 0\<rparr>"
  let ?e = "\<lparr>hour = 6, minute = 0, second = 0, microsecond = 0\<rparr>"
  have en: "quiet_enabled ?a" by simp
  have st: "strptime_HM (quiet_start ?a) = Inr ?s" by (simp add: parse_defs)
  have fi: "strptime_HM (quiet_end ?a) = Inr ?e" by (simp add: parse_defs)
  have n1: "valid_time \<lparr>hour = 23, minute = 30, second = 0, microsecond = 0\<rparr>"
    by (simp add: valid_time_def)
  have n2: "valid_time \<lparr>hour = 12, minute = 0, second = 0, microsecond = 0\<rparr>"
    by (simp add: valid_time_def)
  show ?thesis
    using is_quiet_hours_window [OF en st fi n1] is_quiet_hours_window [OF en st fi n2]
    by (simp add: micros_def)
qed

text \<open>
  C7. \<^verbatim>\<open>is_quiet_hours\<close> always returns a boolean, never an exception; it returns
  \<^verbatim>\<open>False\<close> whenever quiet hours are disabled and whenever the start or the end string
  fails to parse, whatever the current time.
\<close>

theorem is_quiet_hours_fail_open:
  "(\<exists>b. is_quiet_hours a now = Inr b) \<and>
   (\<not> quiet_enabled a \<or> isl (strptime_HM (quiet_start a)) \<or> isl (strptime_HM (quiet_end a))
      \<longrightarrow> is_quiet_hours a now = Inr False)"
proof (intro conjI impI)
  show "\<exists>b. is_quiet_hours a now = Inr b" by (rule is_quiet_hours_total)
next
  assume h: "\<not> quiet_enabled a \<or> isl (strptime_HM (quiet_start a)) \<or> isl (strptime_HM (quiet_end a))"
  show "is_quiet_hours a now = Inr False"
  proof (cases "quiet_enabled a")
    case False
    then show ?thesis by (simp add: is_quiet_hours_def)
  next
    case True
    with h have "isl (strptime_HM (quiet_start a)) \<or> isl (strptime_HM (quiet_end a))" by simp
    then have "is_quiet_hours_try a now = Inl ValueError"
      by (auto simp: is_quiet_hours_try_def isl_def split: sum.splits dest: strptime_HM_Inl)
    with True show ?thesis by (simp add: is_quiet_hours_def)
  qed
qed

text \<open>An hour of 25, an end of \<^verbatim>\<open>6am\<close>, and quiet hours switched off.\<close>

theorem is_quiet_hours_fail_open_witness:
  "is_quiet_hours (fresh_app\<lparr>quiet_enabled := True, quiet_start := ''25:00'', quiet_end := ''06:00''\<rparr>)
     \<lparr>hour = 3, minute = 0, second = 0, microsecond = 0\<rparr> = Inr False
   \<and> is_quiet_hours (fresh_app\<lparr>quiet_enabled := True, quiet_start := ''22:00'', quiet_end := ''6am''\<rparr>)
     \<lparr>hour = 23, minute = 0, second = 0, microsecond = 0\<rparr> = Inr False
   \<and> is_quiet_hours (fresh_app\<lparr>quiet_enabled := False, quiet_start := ''22:00'', quiet_end := ''06:00''\<rparr>)
     \<lparr>hour = 23, minute = 0, second = 0, microsecond = 0\<rparr> = Inr False"
proof -
  let ?a1 = "fresh_app\<lparr>quiet_enabled := True, quiet_start := ''25:00'', quiet_end := ''06:00''\<rparr>"
  let ?a2 = "fresh_app\<lparr>quiet_enabled := True, quiet_start := ''22:00'', quiet_end := ''6am''\<rparr>"
  let ?a3 = "fresh_app\<lparr>quiet_enabled := False, quiet_start := ''22:00'', quiet_end := ''06:00''\<rparr>"
  have h1: "isl (strptime_HM (quiet_start ?a1))" by (simp add: parse_defs)
  have h2: "isl (strptime_HM (quiet_end ?a2))" by (simp add: parse_defs)
  have h3: "\<not> quiet_enabled ?a3" by simp
  show ?thesis
    using is_quiet_hours_fail_open [of ?a1 "\<lparr>hour = 3, minute = 0, second = 0, microsecond = 0\<rparr>"]
      is_quiet_hours_fail_open [of ?a2 "\<lparr>hour = 23, minute = 0, second = 0, microsecond = 0\<rparr>"]
      is_quiet_hours_fail_open [of ?a3 "\<lparr>hour = 23, minute = 0, second = 0, microsecond = 0\<rparr>"]
      h1 h2 h3
    by blast
qed

subsection \<open>The reminder dispatcher\<close>

lemma flip_type_neq: "flip_type t \<noteq> t"
  by (simp add: flip_type_def)

lemma flip_type_twice: "flip_type (flip_type (flip_type t)) = flip_type t"
  by (simp add: flip_type_def)

lemma catalogs_nonempty:
  "STRETCHES \<noteq> []" "EYE_EXERCISES \<noteq> []" "BREATHING_EXERCISES \<noteq> []"
  by (simp_all add: STRETCHES_def EYE_EXERCISES_def BREATHING_EXERCISES_def)

lemma random_choice_in_set: "xs \<noteq> [] \<Longrightarrow> random_choice xs r \<in> set xs"
  by (simp add: random_choice_def)

lemma trigger_stretch_last_type:
  "last_secondary_type (trigger_stretch r1 r2 a) = flip_type (last_secondary_type a)"
  by (simp add: trigger_stretch_def show_stretch_popup_def flip_type_def Let_def)

lemma trigger_stretch_popups:
  "popups (trigger_stretch r1 r2 a) =
     popups a @
       [\<lparr>p_title = custom_message a, p_stretch = random_choice STRETCHES r1,
         p_secondary =
           (if last_secondary_type a = ''breathing'' then random_choice EYE_EXERCISES r2
            else random_choice BREATHING_EXERCISES r2),
         p_secondary_type = flip_type (last_secondary_type a),
         p_count = stretch_count a + 1,
         p_auto_close_ms =
           (if \<not> popup_persistent a then Some (popup_timeout_seconds a * 1000) else None),
         p_age_ms = 0, p_state = Shown\<rparr>]"
  by (simp add: trigger_stretch_def show_stretch_popup_def flip_type_def Let_def)

lemma trigger_stretch_count:
  "stretch_count (trigger_stretch r1 r2 a) = stretch_count a + 1"
  by (simp add: trigger_stretch_def show_stretch_popup_def Let_def split: prod.splits)

lemma trigger_stretch_current:
  "current_stretch (trigger_stretch r1 r2 a) = Some (random_choice STRETCHES r1)"
  "current_secondary_exercise (trigger_stretch r1 r2 a) =
     Some (if last_secondary_type a = ''breathing'' then random_choice EYE_EXERCISES r2
           else random_choice BREATHING_EXERCISES r2)"
  by (simp_all add: trigger_stretch_def show_stretch_popup_def Let_def split: prod.splits)

lemma trigger_stretch_remaining:
  "remaining_seconds (trigger_stretch r1 r2 a) = interval_minutes a * 60"
  "interval_minutes (trigger_stretch r1 r2 a) = interval_minutes a"
  by (simp_all add: trigger_stretch_def show_stretch_popup_def Let_def split: prod.splits)

lemma length_alternation: "length (alternation t n) = n"
  by (induction n arbitrary: t) simp_all

lemma alternation_nth:
  "i < n \<Longrightarrow> alternation t n ! i = (if even i then flip_type t else flip_type (flip_type t))"
proof (induction n arbitrary: t i)
  case 0
  then show ?case by simp
next
  case (Suc n)
  show ?case
  proof (cases i)
    case 0
    then show ?thesis by simp
  next
    case (Suc j)
    with Suc.prems have "j < n" by simp
    then have "alternation (flip_type t) n ! j =
        (if even j then flip_type (flip_type t) else flip_type (flip_type (flip_type t)))"
      by (rule Suc.IH)
    with Suc show ?thesis by (simp add: flip_type_twice)
  qed
qed

lemma alternation_last:
  assumes "n \<noteq> 0"
  shows "last (alternation t n) = (if odd n then flip_type t else flip_type (flip_type t))"
proof -
  have ne: "alternation t n \<noteq> []"
    using assms length_alternation [of t n] by auto
  then have "last (alternation t n) = alternation t n ! (n - 1)"
    by (simp add: last_conv_nth length_alternation)
  also have "\<dots> = (if even (n - 1) then flip_type t else flip_type (flip_type t))"
    using assms by (intro alternation_nth) simp
  finally show ?thesis
    using assms by (cases n) auto
qed

lemma trigger_many_popups:
  "\<exists>ps. popups (trigger_many rs a) = popups a @ ps \<and>
        map p_secondary_type ps = alternation (last_secondary_type a) (length rs)"
proof (induction rs arbitrary: a)
  case Nil
  then show ?case by simp
next
  case (Cons r rs)
  obtain r1 r2 where r: "r = (r1, r2)" by (cases r)
  from Cons.IH [of "trigger_stretch r1 r2 a"] obtain ps where
    ps: "popups (trigger_many rs (trigger_stretch r1 r2 a)) = popups (trigger_stretch r1 r2 a) @ ps"
    and ty: "map p_secondary_type ps =
               alternation (last_secondary_type (trigger_stretch r1 r2 a)) (length rs)"
    by blast
  show ?case
    using ps ty by (simp add: r trigger_stretch_popups trigger_stretch_last_type)
qed

lemma shown_types_trigger_many:
  "shown_types a (trigger_many rs a) = alternation (last_secondary_type a) (length rs)"
  using trigger_many_popups [of rs a] by (auto simp: shown_types_def)

lemma trigger_many_last_type:
  "last_secondary_type (trigger_many rs a) =
     (if rs = [] then last_secondary_type a
      else last (alternation (last_secondary_type a) (length rs)))"
proof (induction rs arbitrary: a)
  case Nil
  then show ?case by simp
next
  case (Cons r rs)
  obtain r1 r2 where r: "r = (r1, r2)" by (cases r)
  show ?case
    using Cons.IH [of "trigger_stretch r1 r2 a"]
    by (cases rs) (simp_all add: r trigger_stretch_last_type)
qed

text \<open>
  C2. In every sequence of consecutive invocations of \<^verbatim>\<open>trigger_stretch\<close>, from any state,
  the secondary type of each reminder after the first differs from the type of the one
  before it, every type is \<^verbatim>\<open>eye\<close> or \<^verbatim>\<open>breathing\<close>, and \<^verbatim>\<open>last_secondary_type\<close> is
  the type of the most recent reminder.
\<close>

theorem secondary_type_alternates:
  "length (shown_types a (trigger_many rs a)) = length rs \<and>
   (\<forall>i. 0 < i \<and> i < length rs \<longrightarrow>
      shown_types a (trigger_many rs a) ! i \<noteq> shown_types a (trigger_many rs a) ! (i - 1)) \<and>
   (\<forall>t \<in> set (shown_types a (trigger_many rs a)). t = ''eye'' \<or> t = ''breathing'') \<and>
   (rs \<noteq> [] \<longrightarrow>
      last_secondary_type (trigger_many rs a) = last (shown_types a (trigger_many rs a)))"
proof -
  let ?ts = "alternation (last_secondary_type a) (length rs)"
  have eq: "shown_types a (trigger_many rs a) = ?ts" by (rule shown_types_trigger_many)
  have len: "length ?ts = length rs" by (rule length_alternation)
  have adj: "?ts ! i \<noteq> ?ts ! (i - 1)" if "0 < i" "i < length rs" for i
  proof -
    from that have "i - 1 < length rs" by simp
    with that show ?thesis
      by (cases "even i") (auto simp add: alternation_nth flip_type_neq flip_type_neq [symmetric])
  qed
  have mem: "t = ''eye'' \<or> t = ''breathing''" if "t \<in> set ?ts" for t
  proof -
    from that obtain i where "i < length rs" "?ts ! i = t"
      by (auto simp: in_set_conv_nth len)
    then show ?thesis by (auto simp: alternation_nth flip_type_def split: if_splits)
  qed
  show ?thesis
    unfolding eq using len adj mem by (auto simp: trigger_many_last_type)
qed

text \<open>Three reminders from a fresh application.\<close>

theorem secondary_type_alternates_witness:
  "shown_types fresh_app (trigger_many [(0, 0), (1, 1), (2, 2)] fresh_app) ! 1 \<noteq>
     shown_types fresh_app (trigger_many [(0, 0), (1, 1), (2, 2)] fresh_app) ! 0
   \<and> shown_types fresh_app (trigger_many [(0, 0), (1, 1), (2, 2)] fresh_app) ! 2 \<noteq>
     shown_types fresh_app (trigger_many [(0, 0), (1, 1), (2, 2)] fresh_app) ! 1
   \<and> (shown_types fresh_app (trigger_many [(0, 0), (1, 1), (2, 2)] fresh_app) ! 0 = ''eye'' \<or>
      shown_types fresh_app (trigger_many [(0, 0), (1, 1), (2, 2)] fresh_app) ! 0 = ''breathing'')
   \<and> last_secondary_type (trigger_many [(0, 0), (1, 1), (2, 2)] fresh_app) =
     last (shown_types fresh_app (trigger_many [(0, 0), (1, 1), (2, 2)] fresh_app))"
proof -
  let ?rs = "[(0::nat, 0::nat), (1, 1), (2, 2)]"
  let ?ts = "shown_types fresh_app (trigger_many ?rs fresh_app)"
  note th = secondary_type_alternates [of fresh_app ?rs]
  from th have len: "length ?ts = length ?rs"
    and adj: "\<And>i. 0 < i \<and> i < length ?rs \<Longrightarrow> ?ts ! i \<noteq> ?ts ! (i - 1)"
    and mem: "\<And>t. t \<in> set ?ts \<Longrightarrow> t = ''eye'' \<or> t = ''breathing''"
    and lst: "?rs \<noteq> [] \<Longrightarrow> last_secondary_type (trigger_many ?rs fresh_app) = last ?ts"
    by blast+
  have "?ts ! 1 \<noteq> ?ts ! 0" using adj [of 1] by simp
  moreover have "?ts ! 2 \<noteq> ?ts ! 1" using adj [of 2] by simp
  moreover have "?ts ! 0 \<in> set ?ts" using len by (intro nth_mem) simp
  then have "?ts ! 0 = ''eye'' \<or> ?ts ! 0 = ''breathing''" by (rule mem)
  moreover have "last_secondary_type (trigger_many ?rs fresh_app) = last ?ts"
    by (rule lst) simp
  ultimately show ?thesis by blast
qed


text \<open>Loading the settings leaves the session state alone.\<close>

lemma load_field_session:
  assumes "load_field k store settings a = Inr a'"
    and "\<And>v x x'. store v x = Inr x' \<Longrightarrow> session_of x' = session_of x"
  shows "session_of a' = session_of a"
  using assms by (auto simp: load_field_def split: sum.splits if_splits)

lemma store_session:
  "map_result (\<lambda>n. x\<lparr>interval_minutes := n\<rparr>) r1 = Inr x' \<Longrightarrow> session_of x' = session_of x"
  "map_result (\<lambda>b. x\<lparr>quiet_enabled := b\<rparr>) r2 = Inr x' \<Longrightarrow> session_of x' = session_of x"
  "map_result (\<lambda>s. x\<lparr>quiet_start := s\<rparr>) r3 = Inr x' \<Longrightarrow> session_of x' = session_of x"
  "map_result (\<lambda>s. x\<lparr>quiet_end := s\<rparr>) r3 = Inr x' \<Longrightarrow> session_of x' = session_of x"
  "set_theme v x = Inr x' \<Longrightarrow> session_of x' = session_of x"
  "map_result (\<lambda>s. x\<lparr>custom_message := s\<rparr>) r3 = Inr x' \<Longrightarrow> session_of x' = session_of x"
  "map_result (\<lambda>n. x\<lparr>popup_timeout_seconds := n\<rparr>) r1 = Inr x' \<Longrightarrow> session_of x' = session_of x"
  "map_result (\<lambda>b. x\<lparr>popup_persistent := b\<rparr>) r2 = Inr x' \<Longrightarrow> session_of x' = session_of x"
  "map_result (\<lambda>b. x\<lparr>sound_enabled := b\<rparr>) r2 = Inr x' \<Longrightarrow> session_of x' = session_of x"
  by (auto simp: map_result_def set_theme_def session_of_def
      split: sum.splits json.splits option.splits)

lemma apply_settings_session:
  assumes "apply_settings settings a = Inr a'"
  shows "session_of a' = session_of a"
proof -
  from assms obtain a1 a2 a3 a4 a5 a6 a7 a8 where steps:
    "load_field ''interval_minutes''
       (\<lambda>v a. map_result (\<lambda>n. a\<lparr>interval_minutes := n\<rparr>) (IntVar_set v)) settings a = Inr a1"
    "load_field ''quiet_enabled''
       (\<lambda>v a. map_result (\<lambda>b. a\<lparr>quiet_enabled := b\<rparr>) (BooleanVar_set v)) settings a1 = Inr a2"
    "load_field ''quiet_start''
       (\<lambda>v a. map_result (\<lambda>s. a\<lparr>quiet_start := s\<rparr>) (StringVar_set v)) settings a2 = Inr a3"
    "load_field ''quiet_end''
       (\<lambda>v a. map_result (\<lambda>s. a\<lparr>quiet_end := s\<rparr>) (StringVar_set v)) settings a3 = Inr a4"
    "load_field ''theme'' set_theme settings a4 = Inr a5"
    "load_field ''custom_message''
       (\<lambda>v a. map_result (\<lambda>s. a\<lparr>custom_message := s\<rparr>) (StringVar_set v)) settings a5 = Inr a6"
    "load_field ''popup_timeout_seconds''
       (\<lambda>v a. map_result (\<lambda>n. a\<lparr>popup_timeout_seconds := n\<rparr>) (IntVar_set v)) settings a6 = Inr a7"
    "load_field ''popup_persistent''
       (\<lambda>v a. map_result (\<lambda>b. a\<lparr>popup_persistent := b\<rparr>) (BooleanVar_set v)) settings a7 = Inr a8"
    "load_field ''sound_enabled''
       (\<lambda>v a. map_result (\<lambda>b. a\<lparr>sound_enabled := b\<rparr>) (BooleanVar_set v)) settings a8 = Inr a'"
    unfolding apply_settings_def by (simp split: sum.splits)
  have "session_of a1 = session_of a"
    by (rule load_field_session [OF steps(1)]) (rule store_session)
  moreover have "session_of a2 = session_of a1"
    by (rule load_field_session [OF steps(2)]) (rule store_session)
  moreover have "session_of a3 = session_of a2"
    by (rule load_field_session [OF steps(3)]) (rule store_session)
  moreover have "session_of a4 = session_of a3"
    by (rule load_field_session [OF steps(4)]) (rule store_session)
  moreover have "session_of a5 = session_of a4"
    by (rule load_field_session [OF steps(5)]) (rule store_session)
  moreover have "session_of a6 = session_of a5"
    by (rule load_field_session [OF steps(6)]) (rule store_session)
  moreover have "session_of a7 = session_of a6"
    by (rule load_field_session [OF steps(7)]) (rule store_session)
  moreover have "session_of a8 = session_of a7"
    by (rule load_field_session [OF steps(8)]) (rule store_session)
  moreover have "session_of a' = session_of a8"
    by (rule load_field_session [OF steps(9)]) (rule store_session)
  ultimately show ?thesis by simp
qed

lemma load_settings_session:
  assumes "load_settings f a = Inr a'"
  shows "session_of a' = session_of a"
proof (cases "load_settings_try f a")
  case (Inl e)
  with assms have "a' = a"
    by (auto simp: load_settings_def split: py_error.splits)
  then show ?thesis by simp
next
  case (Inr b)
  with assms have b: "b = a'" by (simp add: load_settings_def)
  from Inr show ?thesis unfolding b
    by (cases f) (auto simp: load_settings_try_def dest: apply_settings_session)
qed

text \<open>
  C10. A fresh application, whatever the settings file it loaded, has
  \<^verbatim>\<open>last_secondary_type = "breathing"\<close>: its first reminder shows an eye exercise, drawn
  from \<^verbatim>\<open>EYE_EXERCISES\<close>, and the types of its reminders are eye, breathing, eye,
  breathing, and so on.
\<close>

theorem first_secondary_is_eye:
  assumes "app_init f = Inr a"
  shows "last_secondary_type a = ''breathing'' \<and>
         last_secondary_type (trigger_stretch r1 r2 a) = ''eye'' \<and>
         current_secondary_exercise (trigger_stretch r1 r2 a) \<in> Some ` set EYE_EXERCISES \<and>
         shown_types a (trigger_many rs a) =
           map (\<lambda>i. if even i then ''eye'' else ''breathing'') [0..<length rs]"
proof -
  have "session_of a = session_of fresh_app"
    using assms unfolding app_init_def by (rule load_settings_session)
  then have br: "last_secondary_type a = ''breathing''"
    by (simp add: session_of_def fresh_app_def)
  have eye: "last_secondary_type (trigger_stretch r1 r2 a) = ''eye''"
    by (simp add: trigger_stretch_last_type br flip_type_def)
  have ex: "current_secondary_exercise (trigger_stretch r1 r2 a) \<in> Some ` set EYE_EXERCISES"
    by (simp add: trigger_stretch_current br random_choice_in_set catalogs_nonempty)
  have "alternation ''breathing'' n = map (\<lambda>i. if even i then ''eye'' else ''breathing'') [0..<n]"
    for n
    by (rule nth_equalityI) (simp_all add: length_alternation alternation_nth flip_type_def)
  then have "shown_types a (trigger_many rs a) =
      map (\<lambda>i. if even i then ''eye'' else ''breathing'') [0..<length rs]"
    by (simp add: shown_types_trigger_many br)
  with br eye ex show ?thesis by simp
qed

text \<open>Without a settings file, four reminders.\<close>

theorem first_secondary_is_eye_witness:
  "app_init NoFile = Inr fresh_app \<and>
   last_secondary_type fresh_app = ''breathing'' \<and>
   shown_types fresh_app (trigger_many [(4, 1), (0, 5), (7, 2), (3, 3)] fresh_app) =
     [''eye'', ''breathing'', ''eye'', ''breathing'']"
proof -
  have h: "app_init NoFile = Inr fresh_app"
    by (simp add: app_init_def load_settings_def load_settings_try_def)
  have "map (\<lambda>i. if even i then ''eye'' else ''breathing'') [0..<length [(4::nat, 1::nat), (0, 5), (7, 2), (3, 3)]]
          = [''eye'', ''breathing'', ''eye'', ''breathing'']"
    by (simp add: upt_rec)
  then show ?thesis
    using h first_secondary_is_eye [OF h, of 0 0 "[(4, 1), (0, 5), (7, 2), (3, 3)]"] by simp
qed

text \<open>
  C9. The Now button runs \<^verbatim>\<open>trigger_stretch\<close>, which in every state counts the stretch,
  selects a stretch and a secondary exercise from the catalogs and shows the popup. It
  does not read the quiet-hours settings: changing them changes nothing else of its
  result. The countdown loop is what checks quiet hours: at expiry inside the window it
  requests no trigger.
\<close>

theorem manual_trigger_ignores_quiet_hours:
  "step (ClickNow r1 r2) a = Inr (trigger_stretch r1 r2 a) \<and>
   stretch_count (trigger_stretch r1 r2 a) = stretch_count a + 1 \<and>
   current_stretch (trigger_stretch r1 r2 a) \<in> Some ` set STRETCHES \<and>
   current_secondary_exercise (trigger_stretch r1 r2 a)
     \<in> Some ` (set EYE_EXERCISES \<union> set BREATHING_EXERCISES) \<and>
   (\<exists>p. popups (trigger_stretch r1 r2 a) = popups a @ [p] \<and> p_state p = Shown \<and>
        p_count p = stretch_count a + 1) \<and>
   trigger_stretch r1 r2 (a\<lparr>quiet_enabled := q, quiet_start := s, quiet_end := e\<rparr>) =
     (trigger_stretch r1 r2 a)\<lparr>quiet_enabled := q, quiet_start := s, quiet_end := e\<rparr> \<and>
   (running a \<and> \<not> paused a \<and> remaining_seconds a \<le> 0 \<and> is_quiet_hours a now = Inr True \<longrightarrow>
      (\<exists>a'. step (Tick now) a = Inr a' \<and> after_queue a' = after_queue a))"
proof (intro conjI impI)
  show "step (ClickNow r1 r2) a = Inr (trigger_stretch r1 r2 a)" by simp
  show "stretch_count (trigger_stretch r1 r2 a) = stretch_count a + 1"
    by (rule trigger_stretch_count)
  show "current_stretch (trigger_stretch r1 r2 a) \<in> Some ` set STRETCHES"
    by (simp add: trigger_stretch_current random_choice_in_set catalogs_nonempty)
  show "current_secondary_exercise (trigger_stretch r1 r2 a)
          \<in> Some ` (set EYE_EXERCISES \<union> set BREATHING_EXERCISES)"
    using random_choice_in_set [OF catalogs_nonempty(2), of r2]
      random_choice_in_set [OF catalogs_nonempty(3), of r2]
    by (simp add: trigger_stretch_current)
  show "\<exists>p. popups (trigger_stretch r1 r2 a) = popups a @ [p] \<and> p_state p = Shown \<and>
          p_count p = stretch_count a + 1"
    by (simp add: trigger_stretch_popups)
  show "trigger_stretch r1 r2 (a\<lparr>quiet_enabled := q, quiet_start := s, quiet_end := e\<rparr>) =
          (trigger_stretch r1 r2 a)\<lparr>quiet_enabled := q, quiet_start := s, quiet_end := e\<rparr>"
    by (simp add: trigger_stretch_def show_stretch_popup_def Let_def split: prod.splits)
next
  assume "running a \<and> \<not> paused a \<and> remaining_seconds a \<le> 0 \<and> is_quiet_hours a now = Inr True"
  then show "\<exists>a'. step (Tick now) a = Inr a' \<and> after_queue a' = after_queue a"
    by (simp add: timer_loop_body_def)
qed

text \<open>
  At 23:30 inside the window 22:00 to 06:00, with the countdown expired: the loop requests
  nothing, the Now button still counts a stretch.
\<close>

theorem manual_trigger_ignores_quiet_hours_witness:
  "is_quiet_hours
     (start_timer (fresh_app\<lparr>quiet_enabled := True, quiet_start := ''22:00'', quiet_end := ''06:00''\<rparr>)
        \<lparr>remaining_seconds := 0\<rparr>)
     \<lparr>hour = 23, minute = 30, second = 0, microsecond = 0\<rparr> = Inr True \<and>
   stretch_count (trigger_stretch 0 0
     (start_timer (fresh_app\<lparr>quiet_enabled := True, quiet_start := ''22:00'', quiet_end := ''06:00''\<rparr>)
        \<lparr>remaining_seconds := 0\<rparr>)) = 1 \<and>
   (\<exists>a'. step (Tick \<lparr>hour = 23, minute = 30, second = 0, microsecond = 0\<rparr>)
       (start_timer (fresh_app\<lparr>quiet_enabled := True, quiet_start := ''22:00'', quiet_end := ''06:00''\<rparr>)
        \<lparr>remaining_seconds := 0\<rparr>) = Inr a' \<and> after_queue a' = [])"
proof -
  let ?a = "start_timer (fresh_app\<lparr>quiet_enabled := True, quiet_start := ''22:00'', quiet_end := ''06:00''\<rparr>)
        \<lparr>remaining_seconds := 0\<rparr>"
  let ?now = "\<lparr>hour = 23, minute = 30, second = 0, microsecond = 0\<rparr>"
  have q: "is_quiet_hours ?a ?now = Inr True"
    by (simp add: is_quiet_hours_def is_quiet_hours_try_def start_timer_def parse_defs
        time_le_def time_ge_def time_cmp_def tuple_cmp_def)
  have h: "running ?a \<and> \<not> paused ?a \<and> remaining_seconds ?a \<le> 0 \<and> is_quiet_hours ?a ?now = Inr True"
    using q by (simp add: start_timer_def)
  have c: "stretch_count ?a = 0" "after_queue ?a = []"
    by (simp_all add: start_timer_def fresh_app_def)
  show ?thesis
    using manual_trigger_ignores_quiet_hours [where ?r1.0 = 0 and ?r2.0 = 0 and a = ?a and now = ?now] h q c
    by simp
qed

subsection \<open>The countdown engine\<close>

lemma run_append:
  "run (xs @ ys) a = (case run xs a of Inl e \<Rightarrow> Inl e | Inr a' \<Rightarrow> run ys a')"
  by (induction xs arbitrary: a) (auto split: sum.splits)

lemma timer_loop_body_within:
  assumes "within M a"
  shows "\<exists>a'. timer_loop_body now a = Inr a' \<and> within M a' \<and>
              interval_minutes a' = interval_minutes a"
proof -
  obtain b where b: "is_quiet_hours a now = Inr b"
    using is_quiet_hours_total by blast
  show ?thesis
    using assms by (auto simp: timer_loop_body_def b within_def)
qed

lemma trigger_stretch_within:
  "within M a \<Longrightarrow> within M (trigger_stretch r1 r2 a)"
  by (simp add: within_def trigger_stretch_remaining)

lemma step_within:
  assumes "within M a"
    and "\<And>n. ev = SetInterval n \<Longrightarrow> 0 \<le> n \<and> n \<le> M"
  shows "\<exists>a'. step ev a = Inr a' \<and> within M a' \<and>
              ((\<forall>n. ev \<noteq> SetInterval n) \<longrightarrow> interval_minutes a' = interval_minutes a)"
proof (cases ev)
  case (Tick now)
  then show ?thesis
    using timer_loop_body_within [OF assms(1), of now] assms(1) by auto
next
  case (RunCallback r1 r2)
  show ?thesis
  proof (cases "after_queue a")
    case Nil
    with RunCallback assms(1) show ?thesis by simp
  next
    case (Cons c q)
    have "within M (a\<lparr>after_queue := q\<rparr>)" using assms(1) by (simp add: within_def)
    then have "within M (trigger_stretch r1 r2 (a\<lparr>after_queue := q\<rparr>))"
      by (rule trigger_stretch_within)
    with RunCallback Cons show ?thesis
      by (cases c) (simp add: trigger_stretch_remaining)
  qed
next
  case ClickStartStop
  with assms(1) show ?thesis
    by (auto simp: toggle_timer_def start_timer_def stop_timer_def within_def)
next
  case ClickPause
  with assms(1) show ?thesis by (auto simp: toggle_pause_def within_def)
next
  case (ClickNow r1 r2)
  with assms(1) show ?thesis
    by (simp add: trigger_stretch_within trigger_stretch_remaining)
next
  case (SetInterval n)
  with assms show ?thesis by (simp add: within_def)
next
  case (SetQuietHours en s e)
  with assms(1) show ?thesis by (simp add: within_def)
qed

lemma run_within:
  assumes "within M a"
    and "\<forall>n \<in> set (interval_changes evs). 0 \<le> n \<and> n \<le> M"
  shows "\<exists>a'. run evs a = Inr a' \<and> within M a' \<and>
              (interval_changes evs = [] \<longrightarrow> interval_minutes a' = interval_minutes a)"
  using assms
proof (induction evs arbitrary: a)
  case Nil
  then show ?case by simp
next
  case (Cons ev evs)
  have ev: "0 \<le> n \<and> n \<le> M" if "ev = SetInterval n" for n
    using Cons.prems(2) that by simp
  have evs: "\<forall>n \<in> set (interval_changes evs). 0 \<le> n \<and> n \<le> M"
    using Cons.prems(2) by (cases ev) simp_all
  have none: "interval_changes (ev # evs) = [] \<longleftrightarrow>
      (\<forall>n. ev \<noteq> SetInterval n) \<and> interval_changes evs = []"
    by (cases ev) simp_all
  from step_within [OF Cons.prems(1) ev] obtain b where
    b: "step ev a = Inr b" "within M b"
      "(\<forall>n. ev \<noteq> SetInterval n) \<longrightarrow> interval_minutes b = interval_minutes a"
    by blast
  from Cons.IH [OF b(2) evs] obtain a' where
    a': "run evs b = Inr a'" "within M a'"
      "interval_changes evs = [] \<longrightarrow> interval_minutes a' = interval_minutes b"
    by blast
  show ?case
    using b a' unfolding none by simp
qed

lemma start_timer_within:
  "0 \<le> interval_minutes a \<Longrightarrow> interval_minutes a \<le> M \<Longrightarrow> within M (start_timer a)"
  by (simp add: within_def start_timer_def)

text \<open>
  C3, as amended. From a started timer, through any sequence of loop passes, callbacks,
  button presses and interval changes, every event returns normally and
  \<^verbatim>\<open>remaining_seconds\<close> stays between 0 and \<open>M * 60\<close>, where \<open>M\<close> bounds every
  interval configured since the start (none of them negative). Where the interval has
  not been changed, that is, 0 \<open>\<le>\<close> \<^verbatim>\<open>remaining_seconds\<close> \<open>\<le>\<close> \<^verbatim>\<open>interval_minutes * 60\<close>.
\<close>

theorem remaining_seconds_bounded:
  assumes "0 \<le> interval_minutes a" and "interval_minutes a \<le> M"
    and "\<forall>n \<in> set (interval_changes evs). 0 \<le> n \<and> n \<le> M"
  shows "\<exists>a'. run evs (start_timer a) = Inr a' \<and>
           0 \<le> remaining_seconds a' \<and> remaining_seconds a' \<le> M * 60 \<and>
           (interval_changes evs = [] \<longrightarrow>
              interval_minutes a' = interval_minutes a \<and>
              remaining_seconds a' \<le> interval_minutes a' * 60)"
proof -
  from run_within [OF start_timer_within [OF assms(1,2)] assms(3)] obtain a' where
    a': "run evs (start_timer a) = Inr a'" "within M a'"
    by blast
  have "interval_minutes a' = interval_minutes a \<and>
        remaining_seconds a' \<le> interval_minutes a' * 60"
    if none: "interval_changes evs = []"
  proof -
    have "within (interval_minutes a) (start_timer a)"
      using assms(1) by (intro start_timer_within) simp_all
    from run_within [OF this, of evs] none obtain b where
      "run evs (start_timer a) = Inr b" "within (interval_minutes a) b"
      "interval_minutes b = interval_minutes (start_timer a)"
      by auto
    with a'(1) show ?thesis by (simp add: within_def start_timer_def)
  qed
  with a' show ?thesis by (auto simp: within_def)
qed

text \<open>A run with a pause and a change from 45 to 30 minutes.\<close>

theorem remaining_seconds_bounded_witness:
  "\<exists>a'. run [Tick noon, ClickPause, SetInterval 30, Tick noon, ClickPause, Tick noon, ClickNow 3 4]
            (start_timer fresh_app) = Inr a' \<and>
         0 \<le> remaining_seconds a' \<and> remaining_seconds a' \<le> 45 * 60"
proof -
  have h1: "0 \<le> interval_minutes fresh_app" "interval_minutes fresh_app \<le> 45"
    by (simp_all add: fresh_app_def)
  have h2: "\<forall>n \<in> set (interval_changes
      [Tick noon, ClickPause, SetInterval 30, Tick noon, ClickPause, Tick noon, ClickNow 3 4]).
      0 \<le> n \<and> n \<le> 45"
    by simp
  show ?thesis
    using remaining_seconds_bounded [OF h1 h2] by auto
qed

text \<open>
  C3 as stated fails: the countdown does not follow an interval that is lowered while it
  runs. Started at 45 minutes and set to 1 minute, the timer shows 2699 seconds after the
  next pass, above \<open>1 * 60\<close>.
\<close>

theorem remaining_seconds_exceeds_interval:
  "run [SetInterval 1, Tick noon] (start_timer fresh_app) =
     Inr ((start_timer fresh_app)\<lparr>interval_minutes := 1, remaining_seconds := 2699\<rparr>) \<and>
   \<not> (remaining_seconds ((start_timer fresh_app)\<lparr>interval_minutes := 1, remaining_seconds := 2699\<rparr>)
        \<le> interval_minutes ((start_timer fresh_app)\<lparr>interval_minutes := 1, remaining_seconds := 2699\<rparr>) * 60)"
  by (simp add: start_timer_def fresh_app_def timer_loop_body_def)

lemma ticks_count_down:
  assumes "running a" and "\<not> paused a" and "int (length ts) \<le> remaining_seconds a"
  shows "run (map Tick ts) a =
           Inr (a\<lparr>remaining_seconds := remaining_seconds a - int (length ts)\<rparr>)"
  using assms
proof (induction ts arbitrary: a)
  case Nil
  then show ?case by simp
next
  case (Cons t ts)
  let ?b = "a\<lparr>remaining_seconds := remaining_seconds a - 1\<rparr>"
  have st: "step (Tick t) a = Inr ?b"
    using Cons.prems by (simp add: timer_loop_body_def)
  have "run (map Tick ts) ?b =
          Inr (?b\<lparr>remaining_seconds := remaining_seconds ?b - int (length ts)\<rparr>)"
    using Cons.prems by (intro Cons.IH) simp_all
  with st show ?case by (simp add: algebra_simps)
qed

text \<open>
  C4, as amended. With an interval of one minute and quiet hours disabled, 60 unpaused
  passes of the loop after the start bring \<^verbatim>\<open>remaining_seconds\<close> from 60 to 0 and request
  nothing; the 61st pass requests exactly one trigger and resets \<^verbatim>\<open>remaining_seconds\<close>
  to 60.
\<close>

theorem one_minute_countdown:
  assumes "interval_minutes a = 1" and "\<not> quiet_enabled a" and "length ts = 60"
  shows "run (map Tick ts) (start_timer a) = Inr ((start_timer a)\<lparr>remaining_seconds := 0\<rparr>) \<and>
         run (map Tick (ts @ [t])) (start_timer a) =
           Inr ((start_timer a)\<lparr>after_queue := after_queue a @ [CbTriggerStretch],
                                remaining_seconds := 60\<rparr>)"
proof -
  let ?s = "start_timer a"
  have s: "running ?s" "\<not> paused ?s" "remaining_seconds ?s = 60" "\<not> quiet_enabled ?s"
    "interval_minutes ?s = 1" "after_queue ?s = after_queue a"
    using assms(1,2) by (simp_all add: start_timer_def)
  have sixty: "run (map Tick ts) ?s = Inr (?s\<lparr>remaining_seconds := 0\<rparr>)"
    using ticks_count_down [of ?s ts] s assms(3) by simp
  have "step (Tick t) (?s\<lparr>remaining_seconds := 0\<rparr>) =
          Inr (?s\<lparr>after_queue := after_queue a @ [CbTriggerStretch], remaining_seconds := 60\<rparr>)"
    using s by (simp add: timer_loop_body_def is_quiet_hours_def)
  with sixty show ?thesis by (simp add: run_append)
qed

text \<open>Sixty-one passes from a fresh application set to one minute.\<close>

theorem one_minute_countdown_witness:
  "run (map Tick (replicate 60 noon @ [noon])) (start_timer (fresh_app\<lparr>interval_minutes := 1\<rparr>)) =
     Inr ((start_timer (fresh_app\<lparr>interval_minutes := 1\<rparr>))
            \<lparr>after_queue := [CbTriggerStretch], remaining_seconds := 60\<rparr>)"
proof -
  let ?a = "fresh_app\<lparr>interval_minutes := 1\<rparr>"
  have h: "interval_minutes ?a = 1" "\<not> quiet_enabled ?a" "length (replicate 60 noon) = 60"
    by (simp_all add: fresh_app_def)
  have q: "after_queue ?a = []" by (simp add: fresh_app_def)
  show ?thesis
    using one_minute_countdown [OF h, of noon] q by simp
qed

text \<open>
  C4 as stated fails: after exactly 60 passes no trigger has been requested and
  \<^verbatim>\<open>remaining_seconds\<close> is 0, not 60.
\<close>

theorem sixty_ticks_fire_nothing:
  "run (map Tick (replicate 60 noon)) (start_timer (fresh_app\<lparr>interval_minutes := 1\<rparr>)) =
     Inr ((start_timer (fresh_app\<lparr>interval_minutes := 1\<rparr>))\<lparr>remaining_seconds := 0\<rparr>) \<and>
   after_queue ((start_timer (fresh_app\<lparr>interval_minutes := 1\<rparr>))\<lparr>remaining_seconds := 0\<rparr>) = [] \<and>
   remaining_seconds ((start_timer (fresh_app\<lparr>interval_minutes := 1\<rparr>))\<lparr>remaining_seconds := 0\<rparr>)
     \<noteq> 60"
proof -
  let ?s = "start_timer (fresh_app\<lparr>interval_minutes := 1\<rparr>)"
  have s: "running ?s" "\<not> paused ?s" "remaining_seconds ?s = 60" "after_queue ?s = []"
    by (simp_all add: start_timer_def fresh_app_def)
  have "run (map Tick (replicate 60 noon)) ?s = Inr (?s\<lparr>remaining_seconds := 0\<rparr>)"
    using ticks_count_down [of ?s "replicate 60 noon"] s by simp
  with s show ?thesis by simp
qed

subsection \<open>The popup\<close>

lemma popup_run_untimed:
  assumes "p_auto_close_ms p = None" and "p_state p \<noteq> TimedOut"
  shows "p_state (popup_run evs p) \<noteq> TimedOut"
  using assms
proof (induction evs arbitrary: p)
  case Nil
  then show ?case by simp
next
  case (Cons ev evs)
  have "p_auto_close_ms (popup_step ev p) = None \<and> p_state (popup_step ev p) \<noteq> TimedOut"
    using Cons.prems by (cases ev) (simp_all add: Let_def)
  then show ?case using Cons.IH [of "popup_step ev p"] by simp
qed

lemma popup_run_stays_shown:
  assumes "p_auto_close_ms p = None" and "p_state p = Shown" and "ClickDone \<notin> set evs"
  shows "p_state (popup_run evs p) = Shown"
  using assms
proof (induction evs arbitrary: p)
  case Nil
  then show ?case by simp
next
  case (Cons ev evs)
  from Cons.prems(3) obtain ms where ev: "ev = Elapse ms" by (cases ev) auto
  have "p_auto_close_ms (popup_step ev p) = None \<and> p_state (popup_step ev p) = Shown"
    using Cons.prems by (simp add: ev Let_def)
  then show ?case using Cons.IH [of "popup_step ev p"] Cons.prems(3) by simp
qed

lemma popup_run_timed:
  assumes "p_auto_close_ms p = Some t"
    and "p_state p = (if t \<le> p_age_ms p then TimedOut else Shown)"
    and "ClickDone \<notin> set evs"
  shows "p_state (popup_run evs p) =
           (if t \<le> p_age_ms p + elapsed_ms evs then TimedOut else Shown)"
  using assms
proof (induction evs arbitrary: p)
  case Nil
  then show ?case by simp
next
  case (Cons ev evs)
  from Cons.prems(3) obtain ms where ev: "ev = Elapse ms" by (cases ev) auto
  define q where "q = popup_step ev p"
  have q: "p_auto_close_ms q = Some t" "p_age_ms q = p_age_ms p + int ms"
    "p_state q = (if t \<le> p_age_ms q then TimedOut else Shown)"
    using Cons.prems(1,2) by (auto simp: q_def ev Let_def)
  have "p_state (popup_run evs q) =
          (if t \<le> p_age_ms q + elapsed_ms evs then TimedOut else Shown)"
    using q(1,3) Cons.prems(3) by (intro Cons.IH) simp_all
  moreover have "popup_run (ev # evs) p = popup_run evs q"
    by (simp only: popup_run.simps q_def)
  moreover have "p_age_ms q + elapsed_ms evs = p_age_ms p + elapsed_ms (ev # evs)"
    by (simp add: q(2) ev)
  ultimately show ?case by (simp only:)
qed

text \<open>
  C8. The popup that \<^verbatim>\<open>show_stretch_popup\<close> opens is shown, and Done dismisses it. With
  \<^verbatim>\<open>popup_persistent\<close> set, no automatic close is registered: whatever time passes the
  popup never times out, and it stays shown until the user dismisses it. Without it, a
  close is registered after \<^verbatim>\<open>popup_timeout_seconds * 1000\<close> milliseconds, and an
  undismissed popup is shown before that time has passed and timed out from then on.
\<close>

theorem popup_auto_close:
  assumes "p = last (popups (show_stretch_popup stretch secondary_exercise secondary_type a))"
  shows "p_state p = Shown \<and> p_state (popup_step ClickDone p) = Dismissed \<and>
         (popup_persistent a \<longrightarrow>
            p_auto_close_ms p = None \<and>
            (\<forall>evs. p_state (popup_run evs p) \<noteq> TimedOut \<and>
                   (ClickDone \<notin> set evs \<longrightarrow> p_state (popup_run evs p) = Shown))) \<and>
         (\<not> popup_persistent a \<longrightarrow>
            p_auto_close_ms p = Some (popup_timeout_seconds a * 1000) \<and>
            (0 < popup_timeout_seconds a \<longrightarrow>
               (\<forall>evs. ClickDone \<notin> set evs \<longrightarrow>
                  p_state (popup_run evs p) =
                    (if popup_timeout_seconds a * 1000 \<le> elapsed_ms evs then TimedOut
                     else Shown))))"
proof -
  have p: "p_state p = Shown" "p_age_ms p = 0"
    "p_auto_close_ms p =
       (if \<not> popup_persistent a then Some (popup_timeout_seconds a * 1000) else None)"
    by (simp_all add: assms show_stretch_popup_def)
  have pers: "p_state (popup_run evs p) \<noteq> TimedOut \<and>
      (ClickDone \<notin> set evs \<longrightarrow> p_state (popup_run evs p) = Shown)"
    if "popup_persistent a" for evs
    using that p popup_run_untimed [of p evs] popup_run_stays_shown [of p evs] by simp
  have timed: "p_state (popup_run evs p) =
      (if popup_timeout_seconds a * 1000 \<le> elapsed_ms evs then TimedOut else Shown)"
    if "\<not> popup_persistent a" "0 < popup_timeout_seconds a" "ClickDone \<notin> set evs" for evs
    using that p popup_run_timed [of p "popup_timeout_seconds a * 1000" evs] by simp
  show ?thesis
    using p pers timed by simp
qed

text \<open>
  A persistent popup after more than 180 seconds; the default popup one millisecond
  before and at 180 seconds.
\<close>

theorem popup_auto_close_witness:
  "p_state (popup_run [Elapse 180000, Elapse 1]
      (last (popups (show_stretch_popup (random_choice STRETCHES 0)
         (random_choice EYE_EXERCISES 0) ''eye'' (fresh_app\<lparr>popup_persistent := True\<rparr>)))))
     = Shown \<and>
   p_state (popup_run [Elapse 179999]
      (last (popups (show_stretch_popup (random_choice STRETCHES 0)
         (random_choice EYE_EXERCISES 0) ''eye'' fresh_app))))
     = Shown \<and>
   p_state (popup_run [Elapse 179999, Elapse 1]
      (last (popups (show_stretch_popup (random_choice STRETCHES 0)
         (random_choice EYE_EXERCISES 0) ''eye'' fresh_app))))
     = TimedOut"
proof -
  let ?st = "random_choice STRETCHES 0"
  let ?ex = "random_choice EYE_EXERCISES 0"
  let ?a = "fresh_app\<lparr>popup_persistent := True\<rparr>"
  let ?p = "last (popups (show_stretch_popup ?st ?ex ''eye'' ?a))"
  let ?q = "last (popups (show_stretch_popup ?st ?ex ''eye'' fresh_app))"
  have h1: "popup_persistent ?a" by simp
  have h2: "\<not> popup_persistent fresh_app" "0 < popup_timeout_seconds fresh_app"
    by (simp_all add: fresh_app_def)
  have t: "popup_timeout_seconds fresh_app * 1000 = 180000"
    by (simp add: fresh_app_def)
  have e: "ClickDone \<notin> set [Elapse 180000, Elapse 1]" "ClickDone \<notin> set [Elapse 179999]"
    "ClickDone \<notin> set [Elapse 179999, Elapse 1]"
    by simp_all
  have el: "\<not> (180000 \<le> elapsed_ms [Elapse 179999])"
    "180000 \<le> elapsed_ms [Elapse 179999, Elapse 1]"
    by simp_all
  have "p_state (popup_run [Elapse 180000, Elapse 1] ?p) = Shown"
    using popup_auto_close [OF refl, of ?st ?ex "''eye''" ?a] h1 e(1) by blast
  moreover have "p_state (popup_run [Elapse 179999] ?q) =
      (if popup_timeout_seconds fresh_app * 1000 \<le> elapsed_ms [Elapse 179999] then TimedOut
       else Shown)"
    using popup_auto_close [OF refl, of ?st ?ex "''eye''" fresh_app] h2 e(2) by blast
  moreover have "p_state (popup_run [Elapse 179999, Elapse 1] ?q) =
      (if popup_timeout_seconds fresh_app * 1000 \<le> elapsed_ms [Elapse 179999, Elapse 1]
       then TimedOut else Shown)"
    using popup_auto_close [OF refl, of ?st ?ex "''eye''" fresh_app] h2 e(3) by blast
  ultimately show ?thesis
    unfolding t using el by (simp only: if_True if_False simp_thms)
qed

subsection \<open>The settings store\<close>

text \<open>Loading what was just saved assigns each of the nine settings its saved value.\<close>

lemma save_then_load:
  assumes "theme s = ''light'' \<or> theme s = ''dark''"
  shows "load_settings (save_settings True s f) a =
           Inr (a\<lparr>interval_minutes := interval_minutes s, quiet_enabled := quiet_enabled s,
                  quiet_start := quiet_start s, quiet_end := quiet_end s,
                  theme := theme s,
                  colors := (case map_of THEMES (theme s) of Some c \<Rightarrow> c | None \<Rightarrow> []),
                  custom_message := custom_message s,
                  popup_timeout_seconds := popup_timeout_seconds s,
                  popup_persistent := popup_persistent s,
                  sound_enabled := sound_enabled s\<rparr>)"
  using assms
  by (auto simp: load_settings_def load_settings_try_def save_settings_def settings_dict_def
      apply_settings_def load_field_def py_contains_def py_getitem_def map_result_def
      IntVar_set_def BooleanVar_set_def StringVar_set_def set_theme_def THEMES_def)

text \<open>
  C5. When the settings of a state \<open>s\<close> whose theme is one of the two themes are saved
  and the file is then loaded, into any application state, the load returns normally and
  the nine settings are those of \<open>s\<close>; the session state is untouched.
\<close>

theorem settings_round_trip:
  assumes "theme s = ''light'' \<or> theme s = ''dark''"
  shows "\<exists>a'. load_settings (save_settings True s f) a = Inr a' \<and>
              settings_of a' = settings_of s \<and> session_of a' = session_of a"
  by (simp add: save_then_load [OF assms] settings_of_def session_of_def)

text \<open>Five settings changed from their defaults, saved, and loaded by a fresh application.\<close>

theorem settings_round_trip_witness:
  "\<exists>a'. load_settings
           (save_settings True
              (fresh_app\<lparr>interval_minutes := 20, quiet_enabled := True, theme := ''dark'',
                          custom_message := ''Up!'', popup_persistent := True\<rparr>) NoFile)
           fresh_app = Inr a' \<and>
         settings_of a' = (20, True, ''18:00'', ''08:00'', ''dark'', ''Up!'', 180, True, True)"
proof -
  let ?s = "fresh_app\<lparr>interval_minutes := 20, quiet_enabled := True, theme := ''dark'',
                          custom_message := ''Up!'', popup_persistent := True\<rparr>"
  have h: "theme ?s = ''light'' \<or> theme ?s = ''dark''" by simp
  have "settings_of ?s = (20, True, ''18:00'', ''08:00'', ''dark'', ''Up!'', 180, True, True)"
    by (simp add: settings_of_def fresh_app_def)
  then show ?thesis
    using settings_round_trip [OF h, of NoFile fresh_app] by metis
qed

text \<open>
  C6. \<^verbatim>\<open>load_settings\<close> does raise on some file contents. A file holding the JSON value
  \<^verbatim>\<open>null\<close> raises \<^verbatim>\<open>TypeError\<close> at the first \<^verbatim>\<open>in\<close>; an object whose theme is not a
  key of \<^verbatim>\<open>THEMES\<close> raises \<^verbatim>\<open>KeyError\<close>; bytes that do not decode raise
  \<^verbatim>\<open>UnicodeDecodeError\<close>. None of the three is caught by
  \<^verbatim>\<open>except (json.JSONDecodeError, IOError)\<close>.
\<close>

theorem load_settings_raises_on_null:
  "load_settings (Json JNull) fresh_app = Inl TypeError \<and>
   load_settings (Json (JObj [(''theme'', JStr ''blue'')])) fresh_app = Inl KeyError \<and>
   load_settings Undecodable fresh_app = Inl UnicodeDecodeError"
  by (simp add: load_settings_def load_settings_try_def apply_settings_def load_field_def
      py_contains_def py_getitem_def set_theme_def THEMES_def)

text \<open>
  What \<^verbatim>\<open>load_settings\<close> does tolerate: no file, a file that cannot be opened, text
  that is not JSON, and an object in which any of the nine keys is missing, as long as
  the keys present hold values of their own types. State unchanged in the first three
  cases; in the last, every present key applied and every missing one left at its
  current value.
\<close>

lemma load_field_obj:
  "load_field k store (JObj kvs) a =
     (case map_of kvs k of None \<Rightarrow> Inr a | Some v \<Rightarrow> store v a)"
proof (cases "map_of kvs k")
  case None
  then have "k \<notin> set (map fst kvs)" by (simp add: map_of_eq_None_iff)
  with None show ?thesis by (simp add: load_field_def py_contains_def)
next
  case (Some v)
  then have "k \<in> set (map fst kvs)"
    using map_of_eq_None_iff [of kvs k] by auto
  with Some show ?thesis by (simp add: load_field_def py_contains_def py_getitem_def)
qed

lemma load_int_field:
  assumes "typed_as is_JInt kvs k" and "upd d a = a"
  shows "load_field k (\<lambda>v a. map_result (\<lambda>n. upd n a) (IntVar_set v)) (JObj kvs) a =
           Inr (upd (int_field kvs k d) a)"
  using assms
  by (auto simp: load_field_obj typed_as_def is_JInt_def int_field_def map_result_def
      IntVar_set_def split: option.splits json.splits)

lemma load_bool_field:
  assumes "typed_as is_JBool kvs k" and "upd d a = a"
  shows "load_field k (\<lambda>v a. map_result (\<lambda>n. upd n a) (BooleanVar_set v)) (JObj kvs) a =
           Inr (upd (bool_field kvs k d) a)"
  using assms
  by (auto simp: load_field_obj typed_as_def is_JBool_def bool_field_def map_result_def
      BooleanVar_set_def split: option.splits json.splits)

lemma load_str_field:
  assumes "typed_as is_JStr kvs k" and "upd d a = a"
  shows "load_field k (\<lambda>v a. map_result (\<lambda>n. upd n a) (StringVar_set v)) (JObj kvs) a =
           Inr (upd (str_field kvs k d) a)"
  using assms
  by (auto simp: load_field_obj typed_as_def is_JStr_def str_field_def map_result_def
      StringVar_set_def split: option.splits json.splits)

lemma load_theme_field:
  assumes "typed_as is_theme kvs ''theme''"
  shows "load_field ''theme'' set_theme (JObj kvs) a =
           Inr (case map_of kvs ''theme'' of
                  None \<Rightarrow> a
                | Some v \<Rightarrow>
                    a\<lparr>theme := str_field kvs ''theme'' (theme a),
                      colors := (case map_of THEMES (str_field kvs ''theme'' (theme a)) of
                                   Some c \<Rightarrow> c | None \<Rightarrow> [])\<rparr>)"
  using assms
  by (auto simp: load_field_obj typed_as_def is_theme_def str_field_def set_theme_def THEMES_def
      split: option.splits)

lemma load_settings_without_content:
  "load_settings NoFile a = Inr a"
  "load_settings Unreadable a = Inr a"
  "load_settings NotJson a = Inr a"
  by (simp_all add: load_settings_def load_settings_try_def)

lemma apply_settings_well_typed:
  assumes "well_typed_settings kvs"
  shows "\<exists>a'. apply_settings (JObj kvs) a = Inr a' \<and>
           interval_minutes a' = int_field kvs ''interval_minutes'' (interval_minutes a) \<and>
           quiet_enabled a' = bool_field kvs ''quiet_enabled'' (quiet_enabled a) \<and>
           quiet_start a' = str_field kvs ''quiet_start'' (quiet_start a) \<and>
           quiet_end a' = str_field kvs ''quiet_end'' (quiet_end a) \<and>
           theme a' = str_field kvs ''theme'' (theme a) \<and>
           custom_message a' = str_field kvs ''custom_message'' (custom_message a) \<and>
           popup_timeout_seconds a' =
             int_field kvs ''popup_timeout_seconds'' (popup_timeout_seconds a) \<and>
           popup_persistent a' = bool_field kvs ''popup_persistent'' (popup_persistent a) \<and>
           sound_enabled a' = bool_field kvs ''sound_enabled'' (sound_enabled a)"
proof -
  from assms have t:
    "typed_as is_JInt kvs ''interval_minutes''" "typed_as is_JBool kvs ''quiet_enabled''"
    "typed_as is_JStr kvs ''quiet_start''" "typed_as is_JStr kvs ''quiet_end''"
    "typed_as is_theme kvs ''theme''" "typed_as is_JStr kvs ''custom_message''"
    "typed_as is_JInt kvs ''popup_timeout_seconds''"
    "typed_as is_JBool kvs ''popup_persistent''" "typed_as is_JBool kvs ''sound_enabled''"
    by (simp_all add: well_typed_settings_def)
  define a1 where "a1 = a\<lparr>interval_minutes := int_field kvs ''interval_minutes'' (interval_minutes a)\<rparr>"
  define a2 where "a2 = a1\<lparr>quiet_enabled := bool_field kvs ''quiet_enabled'' (quiet_enabled a1)\<rparr>"
  define a3 where "a3 = a2\<lparr>quiet_start := str_field kvs ''quiet_start'' (quiet_start a2)\<rparr>"
  define a4 where "a4 = a3\<lparr>quiet_end := str_field kvs ''quiet_end'' (quiet_end a3)\<rparr>"
  define a5 where "a5 = (case map_of kvs ''theme'' of
                  None \<Rightarrow> a4
                | Some v \<Rightarrow>
                    a4\<lparr>theme := str_field kvs ''theme'' (theme a4),
                      colors := (case map_of THEMES (str_field kvs ''theme'' (theme a4)) of
                                   Some c \<Rightarrow> c | None \<Rightarrow> [])\<rparr>)"
  define a6 where "a6 = a5\<lparr>custom_message := str_field kvs ''custom_message'' (custom_message a5)\<rparr>"
  define a7 where "a7 = a6\<lparr>popup_timeout_seconds :=
      int_field kvs ''popup_timeout_seconds'' (popup_timeout_seconds a6)\<rparr>"
  define a8 where "a8 = a7\<lparr>popup_persistent :=
      bool_field kvs ''popup_persistent'' (popup_persistent a7)\<rparr>"
  define a9 where "a9 = a8\<lparr>sound_enabled := bool_field kvs ''sound_enabled'' (sound_enabled a8)\<rparr>"
  have s1: "load_field ''interval_minutes''
       (\<lambda>v a. map_result (\<lambda>n. a\<lparr>interval_minutes := n\<rparr>) (IntVar_set v)) (JObj kvs) a = Inr a1"
    unfolding a1_def
    by (rule load_int_field [where upd = "\<lambda>n a. a\<lparr>interval_minutes := n\<rparr>", OF t(1)]) simp
  have s2: "load_field ''quiet_enabled''
       (\<lambda>v a. map_result (\<lambda>b. a\<lparr>quiet_enabled := b\<rparr>) (BooleanVar_set v)) (JObj kvs) a1 = Inr a2"
    unfolding a2_def
    by (rule load_bool_field [where upd = "\<lambda>n a. a\<lparr>quiet_enabled := n\<rparr>", OF t(2)]) simp
  have s3: "load_field ''quiet_start''
       (\<lambda>v a. map_result (\<lambda>s. a\<lparr>quiet_start := s\<rparr>) (StringVar_set v)) (JObj kvs) a2 = Inr a3"
    unfolding a3_def
    by (rule load_str_field [where upd = "\<lambda>n a. a\<lparr>quiet_start := n\<rparr>", OF t(3)]) simp
  have s4: "load_field ''quiet_end''
       (\<lambda>v a. map_result (\<lambda>s. a\<lparr>quiet_end := s\<rparr>) (StringVar_set v)) (JObj kvs) a3 = Inr a4"
    unfolding a4_def
    by (rule load_str_field [where upd = "\<lambda>n a. a\<lparr>quiet_end := n\<rparr>", OF t(4)]) simp
  have s5: "load_field ''theme'' set_theme (JObj kvs) a4 = Inr a5"
    unfolding a5_def by (rule load_theme_field [OF t(5)])
  have s6: "load_field ''custom_message''
       (\<lambda>v a. map_result (\<lambda>s. a\<lparr>custom_message := s\<rparr>) (StringVar_set v)) (JObj kvs) a5 = Inr a6"
    unfolding a6_def
    by (rule load_str_field [where upd = "\<lambda>n a. a\<lparr>custom_message := n\<rparr>", OF t(6)]) simp
  have s7: "load_field ''popup_timeout_seconds''
       (\<lambda>v a. map_result (\<lambda>n. a\<lparr>popup_timeout_seconds := n\<rparr>) (IntVar_set v)) (JObj kvs) a6 = Inr a7"
    unfolding a7_def
    by (rule load_int_field [where upd = "\<lambda>n a. a\<lparr>popup_timeout_seconds := n\<rparr>", OF t(7)]) simp
  have s8: "load_field ''popup_persistent''
       (\<lambda>v a. map_result (\<lambda>b. a\<lparr>popup_persistent := b\<rparr>) (BooleanVar_set v)) (JObj kvs) a7 = Inr a8"
    unfolding a8_def
    by (rule load_bool_field [where upd = "\<lambda>n a. a\<lparr>popup_persistent := n\<rparr>", OF t(8)]) simp
  have s9: "load_field ''sound_enabled''
       (\<lambda>v a. map_result (\<lambda>b. a\<lparr>sound_enabled := b\<rparr>) (BooleanVar_set v)) (JObj kvs) a8 = Inr a9"
    unfolding a9_def
    by (rule load_bool_field [where upd = "\<lambda>n a. a\<lparr>sound_enabled := n\<rparr>", OF t(9)]) simp
  have run: "apply_settings (JObj kvs) a = Inr a9"
    unfolding apply_settings_def by (simp add: s1 s2 s3 s4 s5 s6 s7 s8 s9)
  have th: "theme a5 = str_field kvs ''theme'' (theme a4)"
    by (simp add: a5_def str_field_def split: option.splits)
  have fields:
    "interval_minutes a9 = int_field kvs ''interval_minutes'' (interval_minutes a)"
    "quiet_enabled a9 = bool_field kvs ''quiet_enabled'' (quiet_enabled a)"
    "quiet_start a9 = str_field kvs ''quiet_start'' (quiet_start a)"
    "quiet_end a9 = str_field kvs ''quiet_end'' (quiet_end a)"
    "custom_message a9 = str_field kvs ''custom_message'' (custom_message a)"
    "popup_timeout_seconds a9 =
       int_field kvs ''popup_timeout_seconds'' (popup_timeout_seconds a)"
    "popup_persistent a9 = bool_field kvs ''popup_persistent'' (popup_persistent a)"
    "sound_enabled a9 = bool_field kvs ''sound_enabled'' (sound_enabled a)"
    by (simp_all add: a9_def a8_def a7_def a6_def a5_def a4_def a3_def a2_def a1_def
        split: option.splits)
  have "theme a9 = str_field kvs ''theme'' (theme a)"
    using th by (simp add: a9_def a8_def a7_def a6_def a4_def a3_def a2_def a1_def)
  with run fields show ?thesis by simp
qed

lemma load_settings_well_typed_example:
  "\<exists>a'. load_settings (Json (JObj [(''interval_minutes'', JInt 30), (''theme'', JStr ''dark'')]))
           fresh_app = Inr a' \<and>
         settings_of a' = (30, False, ''18:00'', ''08:00'', ''dark'', ''Time to Stretch!'', 180,
                           False, True)"
  by (simp add: load_settings_def load_settings_try_def apply_settings_def load_field_def
      py_contains_def py_getitem_def map_result_def IntVar_set_def BooleanVar_set_def
      StringVar_set_def set_theme_def THEMES_def settings_of_def fresh_app_def)

end
